theory Spec2Isabelle
  imports Main "HOL-Library.Word"
begin

unbundle bit_operations_syntax

section \<open>Bytes, errors and the struct helpers of gen_clock.py\<close>

type_synonym byte = "8 word"

text \<open>
  Python exceptions and the logged early returns of the packer.  A function of the source
  that logs and returns \<open>None\<close> or \<open>False\<close> yields the matching error value.
\<close>

datatype error =
    NotBMP
  | UnsupportedBpp nat
  | FormatMismatch nat nat
  | IndexError
  | KeyError string
  | StructError
  | AttributeError
  | TypeError
  | FileNotFound
  | ImageOpenError

definition ebind :: "error + 'a \<Rightarrow> ('a \<Rightarrow> error + 'b) \<Rightarrow> error + 'b" where
  "ebind m f = (case m of Inl e \<Rightarrow> Inl e | Inr x \<Rightarrow> f x)"

text \<open>\<open>xs[a:b]\<close> for non-negative bounds: out-of-range bounds are clipped, never an error.\<close>

definition slice :: "'a list \<Rightarrow> nat \<Rightarrow> nat \<Rightarrow> 'a list" where
  "slice xs a b = take (b - a) (drop a xs)"

text \<open>\<open>xs[i]\<close> on a bytes object: the value as an integer, or IndexError.\<close>

definition getb :: "byte list \<Rightarrow> nat \<Rightarrow> error + nat" where
  "getb xs i = (if i < length xs then Inr (unat (xs ! i)) else Inl IndexError)"

text \<open>\<open>struct.unpack('<I' | '<H', bs)[0]\<close>: little-endian unsigned.\<close>

fun le_uint :: "byte list \<Rightarrow> nat" where
  "le_uint [] = 0"
| "le_uint (b # bs) = unat b + 256 * le_uint bs"

text \<open>\<open>struct.unpack('<i', bs)[0]\<close>: little-endian two's complement on four bytes.\<close>

definition le_sint32 :: "byte list \<Rightarrow> int" where
  "le_sint32 bs = (let u = int (le_uint bs) in if u < 2 ^ 31 then u else u - 2 ^ 32)"

text \<open>\<open>struct.pack('<H', v)\<close> and \<open>struct.pack('<HB', v, a)\<close>: struct.error out of range.\<close>

definition pack_H_le :: "nat \<Rightarrow> error + byte list" where
  "pack_H_le v = (if v < 65536 then Inr [of_nat (v AND 255), of_nat (drop_bit 8 v)]
                  else Inl StructError)"

definition pack_HB_le :: "nat \<Rightarrow> nat \<Rightarrow> error + byte list" where
  "pack_HB_le v a = (if v < 65536 \<and> a < 256
                     then Inr [of_nat (v AND 255), of_nat (drop_bit 8 v), of_nat a]
                     else Inl StructError)"

text \<open>\<open>struct.pack('>I', v)\<close> and \<open>struct.pack('>i', v)\<close>: big-endian, range checked.\<close>

definition be_bytes4 :: "int \<Rightarrow> byte list" where
  "be_bytes4 v = [word_of_int (drop_bit 24 v), word_of_int (drop_bit 16 v),
                  word_of_int (drop_bit 8 v), word_of_int v]"

definition pack_I_be :: "int \<Rightarrow> error + byte list" where
  "pack_I_be v = (if 0 \<le> v \<and> v < 2 ^ 32 then Inr (be_bytes4 v) else Inl StructError)"

definition pack_i_be :: "int \<Rightarrow> error + byte list" where
  "pack_i_be v = (if - (2 ^ 31) \<le> v \<and> v < 2 ^ 31 then Inr (be_bytes4 v) else Inl StructError)"

text \<open>Reading a big-endian unsigned field back, used to state what a file holds.\<close>

fun be_uint :: "byte list \<Rightarrow> nat" where
  "be_uint [] = 0"
| "be_uint (b # bs) = unat b * 256 ^ length bs + be_uint bs"

text \<open>\<open>str.encode()\<close>: a \<open>string\<close> is held as its UTF-8 bytes, one \<open>char\<close> per byte.\<close>

definition encode :: "string \<Rightarrow> byte list" where
  "encode s = map (\<lambda>c. of_nat (of_char c)) s"

text \<open>\<open>str.lower()\<close> on ASCII letters; bytes of other code points are left as they are.\<close>

definition lower_char :: "char \<Rightarrow> char" where
  "lower_char c = (let n = (of_char c :: nat) in if 65 \<le> n \<and> n \<le> 90 then char_of (n + 32) else c)"

definition lower :: "string \<Rightarrow> string" where
  "lower s = map lower_char s"

definition startswith :: "string \<Rightarrow> string \<Rightarrow> bool" where
  "startswith s p = (take (length p) s = p)"

definition endswith :: "string \<Rightarrow> string \<Rightarrow> bool" where
  "endswith s p = (length p \<le> length s \<and> drop (length s - length p) s = p)"

text \<open>\<open>p in s\<close> on strings: \<open>p\<close> occurs as a contiguous substring.\<close>

fun contains :: "string \<Rightarrow> string \<Rightarrow> bool" where
  "contains [] p = (p = [])"
| "contains (c # cs) p = (startswith (c # cs) p \<or> contains cs p)"

text \<open>\<open>s.split(c)\<close>: always at least one component.\<close>

fun split_char :: "char \<Rightarrow> string \<Rightarrow> string list" where
  "split_char c [] = [[]]"
| "split_char c (x # xs) =
     (if x = c then [] # split_char c xs
      else (case split_char c xs of [] \<Rightarrow> [[x]] | w # ws \<Rightarrow> (x # w) # ws))"

text \<open>A \<open>for\<close> loop that appends each step's bytes to an accumulator and stops at a raise.\<close>

fun for_append :: "('i \<Rightarrow> error + byte list) \<Rightarrow> 'i list \<Rightarrow> byte list \<Rightarrow> error + byte list" where
  "for_append f [] out = Inr out"
| "for_append f (x # xs) out =
     (case f x of Inl e \<Rightarrow> Inl e | Inr bs \<Rightarrow> for_append f xs (out @ bs))"

text \<open>
  The 16-byte chunk header written by \<open>bmp_2_rgb\<close> and, for JPG and GIF, by
  \<open>gen_clock_res\<close>: every field is masked to a byte before \<open>struct.pack('B' * 16)\<close>.
\<close>

definition chunk_header :: "nat \<Rightarrow> nat \<Rightarrow> nat \<Rightarrow> nat \<Rightarrow> byte list" where
  "chunk_header img_type n h w =
     [of_nat img_type, 0,
      of_nat (n AND 255), of_nat (drop_bit 8 n AND 255), of_nat (drop_bit 16 n AND 255),
      of_nat (h AND 255),
      of_nat ((drop_bit 8 h AND 15) OR push_bit 4 (w AND 15)),
      of_nat (drop_bit 4 w AND 255)] @ replicate 8 0"

section \<open>Pixel transcoder: bmp_2_rgb\<close>

text \<open>The colour arithmetic of the three \<open>tmp_16\<close> assignments.\<close>

definition rgb565 :: "nat \<Rightarrow> nat \<Rightarrow> nat \<Rightarrow> nat" where
  "rgb565 r g b = push_bit 8 (r AND 248) OR push_bit 3 (g AND 252) OR drop_bit 3 (b AND 248)"

definition rgb1555 :: "nat \<Rightarrow> nat \<Rightarrow> nat \<Rightarrow> nat \<Rightarrow> nat" where
  "rgb1555 r g b a =
     (let t = push_bit 7 (r AND 248) OR push_bit 2 (g AND 248) OR drop_bit 3 (b AND 248)
      in if a = 255 then t OR 32768 else t)"

definition pixel_565 :: "byte list \<Rightarrow> nat \<Rightarrow> error + byte list" where
  "pixel_565 row x =
     ebind (getb row (x * 3 + 0)) (\<lambda>b.
     ebind (getb row (x * 3 + 1)) (\<lambda>g.
     ebind (getb row (x * 3 + 2)) (\<lambda>r.
       pack_H_le (rgb565 r g b))))"

definition pixel_1555 :: "byte list \<Rightarrow> nat \<Rightarrow> error + byte list" where
  "pixel_1555 row x =
     ebind (getb row (x * 4 + 0)) (\<lambda>b.
     ebind (getb row (x * 4 + 1)) (\<lambda>g.
     ebind (getb row (x * 4 + 2)) (\<lambda>r.
     ebind (getb row (x * 4 + 3)) (\<lambda>a.
       pack_H_le (rgb1555 r g b a)))))"

definition pixel_8565 :: "byte list \<Rightarrow> nat \<Rightarrow> error + byte list" where
  "pixel_8565 row x =
     ebind (getb row (x * 4 + 0)) (\<lambda>b.
     ebind (getb row (x * 4 + 1)) (\<lambda>g.
     ebind (getb row (x * 4 + 2)) (\<lambda>r.
     ebind (getb row (x * 4 + 3)) (\<lambda>a.
       pack_HB_le (rgb565 r g b) a))))"

text \<open>The nested \<open>pack_row\<close>, with the variables it closes over as parameters.\<close>

definition pack_row :: "nat \<Rightarrow> nat \<Rightarrow> nat \<Rightarrow> byte list \<Rightarrow> error + byte list" where
  "pack_row rgb_format bpp bmp_w row_bytes =
     (if rgb_format = 565 then
        (if bpp = 2 then Inr (take (bmp_w * 2) row_bytes)
         else for_append (pixel_565 row_bytes) [0..<bmp_w] [])
      else if rgb_format = 1555 then for_append (pixel_1555 row_bytes) [0..<bmp_w] []
      else if rgb_format = 8888 then Inr (take (bmp_w * 4) row_bytes)
      else for_append (pixel_8565 row_bytes) [0..<bmp_w] [])"

text \<open>
  Target format from the stem of the file name and the bytes per pixel
  (\<open>bpp = bpp_bits >> 3\<close>): the result is \<open>(rgb_format, img_type)\<close>.
\<close>

definition select_format :: "string \<Rightarrow> nat \<Rightarrow> error + (nat \<times> nat)" where
  "select_format file_name bpp =
     (if endswith file_name ''8888'' then
        (if bpp \<noteq> 4 then Inl (FormatMismatch 8888 bpp) else Inr (8888, 71))
      else if endswith file_name ''1555'' \<and> bpp = 4 then Inr (1555, 74)
      else if endswith file_name ''565'' \<or> bpp \<in> {2, 3} then Inr (565, 73)
      else (if bpp \<noteq> 4 then Inl (FormatMismatch 8565 bpp) else Inr (8565, 72)))"

definition y_range :: "bool \<Rightarrow> nat \<Rightarrow> nat list" where
  "y_range top_down bmp_h = (if top_down then [0..<bmp_h] else rev [0..<bmp_h])"

text \<open>
  \<open>bmp_2_rgb\<close> on the base name of the intermediate file and its contents; the result is
  the blob written to \<open><file>.RGB\<close>.
\<close>

definition bmp_2_rgb :: "string \<Rightarrow> byte list \<Rightarrow> error + byte list" where
  "bmp_2_rgb base_name in_data =
     (if length in_data < 54 \<or> slice in_data 0 2 \<noteq> encode ''BM'' then Inl NotBMP
      else
        let data_start_addr = le_uint (slice in_data 10 14);
            bmp_w = le_uint (slice in_data 18 22);
            bmp_h0 = int (le_uint (slice in_data 22 26));
            bpp_bits = le_uint (slice in_data 28 30);
            bpp = drop_bit 3 bpp_bits
        in if bpp \<notin> {2, 3, 4} then Inl (UnsupportedBpp bpp_bits)
        else
          case select_format (hd (split_char CHR ''.'' base_name)) bpp of
            Inl e \<Rightarrow> Inl e
          | Inr (rgb_format, img_type) \<Rightarrow>
              let row_stride = ((bmp_w * bpp + 3) div 4) * 4;
                  bmp_h1 = (if bmp_h0 AND 0x80000000 \<noteq> 0
                            then le_sint32 (slice in_data 22 26) else bmp_h0);
                  top_down = (bmp_h1 < 0);
                  bmp_h = nat (if bmp_h1 < 0 then - bmp_h1 else bmp_h1)
              in ebind
                   (for_append
                     (\<lambda>y. let off = data_start_addr + y * row_stride
                          in pack_row rgb_format bpp bmp_w
                               (slice in_data off (off + row_stride)))
                     (y_range top_down bmp_h) [])
                   (\<lambda>out_payload.
                     Inr (chunk_header img_type (length out_payload) bmp_h bmp_w
                          @ out_payload)))"



section \<open>Chunk compressor: compress_rgb\<close>

text \<open>
  What \<open>compress_rgb\<close> does with one \<open>*.RGB\<close> file: \<open>continue\<close> without writing
  (\<open>Skipped\<close>), an exception caught and logged (\<open>Failed\<close>), or the blob written to the
  sibling \<open>.COMP\<close> file.  \<open>lz4_block.compress(..., mode='high_compression',
  compression=12, store_size=False)\<close> is an external library: it is the parameter
  \<open>lz4\<close>, \<open>None\<close> when it raises.
\<close>

datatype comp_result = Skipped | Failed | Written "byte list"

text \<open>Line 367: the 24-bit little-endian length in bytes 2 to 4 of a header.\<close>

definition header_payload_len :: "byte list \<Rightarrow> nat" where
  "header_payload_len header =
     unat (header ! 2) OR push_bit 8 (unat (header ! 3)) OR push_bit 16 (unat (header ! 4))"

definition compress_chunk :: "(byte list \<Rightarrow> byte list option) \<Rightarrow> byte list \<Rightarrow> comp_result" where
  "compress_chunk lz4 blob =
     (if length blob < 16 then Skipped
      else
        let header = take 16 blob in
        if header ! 1 = 1 then Skipped
        else
          let payload_len0 = header_payload_len header;
              payload = drop 16 blob;
              repair = (payload_len0 \<le> 0 \<or> payload_len0 > length payload);
              payload_len = (if repair then length payload else payload_len0);
              header1 = (if repair
                         then header[2 := of_nat (payload_len AND 255),
                                     3 := of_nat (drop_bit 8 payload_len AND 255),
                                     4 := of_nat (drop_bit 16 payload_len AND 255)]
                         else header)
          in case lz4 (take payload_len payload) of
               None \<Rightarrow> Failed
             | Some comp_bytes \<Rightarrow> Written (header1[1 := 1] @ comp_bytes))"





section \<open>The descriptor: config.json\<close>

text \<open>
  An element of \<open>imgArr\<close> as \<open>json.load\<close> yields it: an integer, a string or a list.
  A layer is a JSON object; the keys the spec calls optional (\<open>interval\<close>, \<open>area_num\<close>)
  and the key \<open>name\<close>, which only \<open>check_clock\<close> reads, may be absent (\<open>None\<close>, a
  KeyError when read).
\<close>

datatype img = ImgInt int | ImgStr string | ImgList "img list"

record layer =
  drawType :: int
  dataType :: int
  alignType :: int
  layer_x :: int
  layer_y :: int
  num :: int
  interval :: "int option"
  area_num :: "int list option"
  imgArr :: "img list"
  layer_name :: "string option"

section \<open>Layout validator: check_clock\<close>

text \<open>The lines \<open>check_clock\<close> logs.\<close>

datatype log_msg =
    DirMissing
  | ConfigMissing
  | ConfigReadError
  | CountMismatch "string option"
  | ImageMissing string
  | TotalsDiffer int int

text \<open>
  What \<open>check_clock\<close> sees of the watchface directory: whether it is a directory, what
  reading \<open>config.json\<close> gives, and the file names \<open>get_filename_list\<close> walks over
  (as on disk; it lower-cases them).
\<close>

datatype config_file = NoConfig | BadConfig | Config "layer list"

record clock_dir =
  is_dir :: bool
  config_json :: config_file
  file_names :: "string list"

definition get_filename_list :: "clock_dir \<Rightarrow> string list" where
  "get_filename_list d = map lower (file_names d)"

text \<open>The loop state: the log, \<open>config_img_list\<close> and \<open>err_count\<close>.\<close>

type_synonym check_state = "log_msg list \<times> string list \<times> nat"

definition check_ref :: "string list \<Rightarrow> string \<Rightarrow> check_state \<Rightarrow> check_state" where
  "check_ref my_list i st =
     (case st of (lg, config_img_list, err_count) \<Rightarrow>
        if i \<notin> set my_list then (lg @ [ImageMissing i], config_img_list, err_count + 1)
        else if i \<notin> set config_img_list then (lg, config_img_list @ [i], err_count)
        else st)"

fun check_img :: "string list \<Rightarrow> int \<Rightarrow> check_state \<Rightarrow> nat \<times> img \<Rightarrow> error + check_state" where
  "check_img my_list dt st (idx, ImgList xs) =
     (if xs = [] then Inl IndexError
      else (case last xs of
              ImgStr s \<Rightarrow> Inr (check_ref my_list (lower s) st)
            | _ \<Rightarrow> Inl AttributeError))"
| "check_img my_list dt st (idx, ImgInt v) = Inr st"
| "check_img my_list dt st (idx, ImgStr s) =
     (if dt = 55 \<and> idx = 2 then Inr st
      else Inr (check_ref my_list (lower s) st))"

fun check_imgs :: "string list \<Rightarrow> int \<Rightarrow> check_state \<Rightarrow> (nat \<times> img) list \<Rightarrow> error + check_state" where
  "check_imgs my_list dt st [] = Inr st"
| "check_imgs my_list dt st (e # es) =
     (case check_img my_list dt st e of
        Inl err \<Rightarrow> Inl err
      | Inr st' \<Rightarrow> check_imgs my_list dt st' es)"

definition check_item :: "string list \<Rightarrow> check_state \<Rightarrow> layer \<Rightarrow> error + check_state" where
  "check_item my_list st item =
     ebind
       (if int (length (imgArr item)) \<noteq> num item then
          (case layer_name item of
             None \<Rightarrow> Inl (KeyError ''name'')
           | Some n \<Rightarrow>
               (case st of (lg, cil, ec) \<Rightarrow>
                  Inr (lg @ [CountMismatch (if n \<noteq> [] then Some n else None)], cil, ec + 1)))
        else Inr st)
       (\<lambda>st1. check_imgs my_list (drawType item) st1 (enumerate 0 (imgArr item)))"

fun check_items :: "string list \<Rightarrow> check_state \<Rightarrow> layer list \<Rightarrow> error + check_state" where
  "check_items my_list st [] = Inr st"
| "check_items my_list st (item # items) =
     (case check_item my_list st item of
        Inl err \<Rightarrow> Inl err
      | Inr st' \<Rightarrow> check_items my_list st' items)"

text \<open>
  \<open>check_clock\<close>: an uncaught exception (\<open>Inl\<close>), or the lines logged together with the
  boolean returned to the caller.
\<close>

definition check_clock :: "clock_dir \<Rightarrow> error + (log_msg list \<times> bool)" where
  "check_clock d =
     (if \<not> is_dir d then Inr ([DirMissing], False)
      else case config_json d of
        NoConfig \<Rightarrow> Inr ([ConfigMissing], False)
      | BadConfig \<Rightarrow> Inr ([ConfigReadError], False)
      | Config config \<Rightarrow>
          (let my_list = get_filename_list d in
           case check_items my_list ([], [], 0) config of
             Inl err \<Rightarrow> Inl err
           | Inr (lg, config_img_list, err_count) \<Rightarrow>
               let lg' = (if int (length my_list) - 2 \<noteq> int (length config_img_list)
                          then lg @ [TotalsDiffer (int (length my_list) - 2)
                                                  (int (length config_img_list))]
                          else lg)
               in Inr (lg', err_count = 0)))"


text \<open>The value the caller of \<open>check_clock\<close> receives: the boolean alone.\<close>

definition check_clock_ret :: "clock_dir \<Rightarrow> error + bool" where
  "check_clock_ret d = (case check_clock d of Inl e \<Rightarrow> Inl e | Inr (lg, ok) \<Rightarrow> Inr ok)"

subsection \<open>The validation rules as section 4.4 of the spec words them\<close>

text \<open>
  The elements of the spec's data model: an integer, a file name, or a 3-tuple of two
  integers and a file name.  A layer is well formed when its elements are of that model
  and, if its count is wrong, it has the \<open>name\<close> the log line prints.
\<close>

fun wf_img :: "img \<Rightarrow> bool" where
  "wf_img (ImgInt v) = True"
| "wf_img (ImgStr s) = True"
| "wf_img (ImgList [ImgInt a, ImgInt b, ImgStr s]) = True"
| "wf_img (ImgList xs) = False"

definition wf_layer :: "layer \<Rightarrow> bool" where
  "wf_layer l =
     ((int (length (imgArr l)) \<noteq> num l \<longrightarrow> layer_name l \<noteq> None) \<and>
      list_all wf_img (imgArr l))"

text \<open>
  The file an element must reference: none for an integer and for the text slot of draw
  type 55, the string itself, or the third element of a 3-tuple; compared in lower case.
\<close>

fun spec_ref :: "int \<Rightarrow> nat \<times> img \<Rightarrow> string option" where
  "spec_ref dt (idx, ImgInt v) = None"
| "spec_ref dt (idx, ImgStr s) = (if dt = 55 \<and> idx = 2 then None else Some (lower s))"
| "spec_ref dt (idx, ImgList xs) =
     (if length xs = 3 then (case xs ! 2 of ImgStr s \<Rightarrow> Some (lower s) | _ \<Rightarrow> None)
      else None)"

definition spec_img_mismatches :: "string list \<Rightarrow> int \<Rightarrow> nat \<times> img \<Rightarrow> log_msg list" where
  "spec_img_mismatches my_list dt e =
     (case spec_ref dt e of
        None \<Rightarrow> []
      | Some r \<Rightarrow> (if r \<in> set my_list then [] else [ImageMissing r]))"

definition spec_layer_mismatches :: "string list \<Rightarrow> layer \<Rightarrow> log_msg list" where
  "spec_layer_mismatches my_list l =
     (if int (length (imgArr l)) \<noteq> num l
      then [CountMismatch (case layer_name l of
                             None \<Rightarrow> None
                           | Some n \<Rightarrow> (if n \<noteq> [] then Some n else None))]
      else []) @
     concat (map (spec_img_mismatches my_list (drawType l)) (enumerate 0 (imgArr l)))"

definition spec_mismatches :: "string list \<Rightarrow> layer list \<Rightarrow> log_msg list" where
  "spec_mismatches my_list config = concat (map (spec_layer_mismatches my_list) config)"

fun is_mismatch :: "log_msg \<Rightarrow> bool" where
  "is_mismatch (CountMismatch n) = True"
| "is_mismatch (ImageMissing f) = True"
| "is_mismatch m = False"

section \<open>Assembler and layer serializer: gen_clock_res\<close>

definition g_clock_id_prefix_dict :: "(string \<times> int) list" where
  "g_clock_id_prefix_dict =
     [(''454_454'', 983040), (''400_400'', 917504), (''466_466'', 851968),
      (''390_390'', 786432), (''410_502'', 720896), (''320_384'', 655360),
      (''320_385'', 655360), (''368_448'', 589824), (''390_450'', 524288),
      (''360_360'', 458752)]"

text \<open>
  A file of the list \<open>image_pre_build\<close> returns: its base name, its contents, and what
  \<open>Image.open(...).size\<close> gives for it as \<open>(width, height)\<close>, \<open>None\<close> when PIL cannot
  open it.
\<close>

record src_file =
  base_name :: string
  contents :: "byte list"
  img_size :: "(nat \<times> nat) option"

text \<open>The variables the loop over \<open>file_list\<close> updates.\<close>

record pack_state =
  clock_thumb_data :: "byte list"
  clock_thumb_length :: nat
  clock_img_data :: "byte list"
  clock_img_length :: nat
  clock_z_img_data :: "byte list"
  clock_z_img_length :: nat
  img_objs :: "string \<rightharpoonup> nat \<times> nat"

text \<open>\<open>file_name\<close>: the first two dot-separated components of the base name.\<close>

definition file_name_of :: "string \<Rightarrow> error + string" where
  "file_name_of bn =
     (let parts = split_char CHR ''.'' bn in
      if length parts < 2 then Inl IndexError
      else Inr (parts ! 0 @ ''.'' @ parts ! 1))"

definition img_ext_of :: "string \<Rightarrow> string" where
  "img_ext_of bn = split_char CHR ''.'' bn ! 1"

text \<open>\<open>in_data\<close>: the synthesized header of a JPG or GIF, then the file's bytes.\<close>

definition in_data_of :: "src_file \<Rightarrow> error + byte list" where
  "in_data_of f =
     (let img_ext = img_ext_of (base_name f); file_size = length (contents f) in
      if lower img_ext = ''jpg'' then
        (case img_size f of
           None \<Rightarrow> Inl ImageOpenError
         | Some (width, height) \<Rightarrow> Inr (chunk_header 9 file_size height width @ contents f))
      else if lower img_ext = ''gif'' then
        (case img_size f of
           None \<Rightarrow> Inl ImageOpenError
         | Some (width, height) \<Rightarrow> Inr (chunk_header 3 file_size height width @ contents f))
      else Inr (contents f))"

text \<open>One iteration of the loop; \<open>ov\<close> says whether \<open>thumbnail_path_override\<close> is set.\<close>

definition add_file :: "bool \<Rightarrow> pack_state \<Rightarrow> src_file \<Rightarrow> error + pack_state" where
  "add_file ov st f =
     ebind (file_name_of (base_name f)) (\<lambda>file_name.
     ebind (in_data_of f) (\<lambda>in_data.
       let file_size = length in_data in
       if \<not> ov \<and> contains file_name ''thumbnail'' then
         Inr (st\<lparr>clock_thumb_data := in_data, clock_thumb_length := file_size\<rparr>)
       else if startswith file_name ''z_'' then
         Inr (st\<lparr>clock_z_img_data := clock_z_img_data st @ in_data,
                 img_objs := (img_objs st)(file_name \<mapsto> (clock_z_img_length st, file_size)),
                 clock_z_img_length := clock_z_img_length st + file_size\<rparr>)
       else
         Inr (st\<lparr>clock_img_data := clock_img_data st @ in_data,
                 img_objs := (img_objs st)(file_name \<mapsto> (clock_img_length st, file_size)),
                 clock_img_length := clock_img_length st + file_size\<rparr>)))"

fun add_files :: "bool \<Rightarrow> pack_state \<Rightarrow> src_file list \<Rightarrow> error + pack_state" where
  "add_files ov st [] = Inr st"
| "add_files ov st (f # fs) =
     (case add_file ov st f of Inl e \<Rightarrow> Inl e | Inr st' \<Rightarrow> add_files ov st' fs)"

text \<open>
  The state before the loop.  The override is \<open>None\<close> when no path is given,
  \<open>Some None\<close> when the path does not exist, \<open>Some (Some bytes)\<close> otherwise.
\<close>

definition init_state :: "byte list option option \<Rightarrow> error + pack_state" where
  "init_state thumbnail_override =
     (case thumbnail_override of
        None \<Rightarrow> Inr \<lparr>clock_thumb_data = [], clock_thumb_length = 0, clock_img_data = [],
                     clock_img_length = 0, clock_z_img_data = [], clock_z_img_length = 0,
                     img_objs = Map.empty\<rparr>
      | Some None \<Rightarrow> Inl FileNotFound
      | Some (Some t) \<Rightarrow> Inr \<lparr>clock_thumb_data = t, clock_thumb_length = length t,
                     clock_img_data = [], clock_img_length = 0, clock_z_img_data = [],
                     clock_z_img_length = 0, img_objs = Map.empty\<rparr>)"

definition build_regions :: "byte list option option \<Rightarrow> src_file list \<Rightarrow> error + pack_state" where
  "build_regions thumbnail_override file_list =
     ebind (init_state thumbnail_override)
       (\<lambda>st. add_files (thumbnail_override \<noteq> None) st file_list)"

text \<open>\<open>img_objs[k]\<close>.\<close>

definition lookup_obj :: "(string \<rightharpoonup> nat \<times> nat) \<Rightarrow> string \<Rightarrow> error + nat \<times> nat" where
  "lookup_obj objs k = (case objs k of None \<Rightarrow> Inl (KeyError k) | Some v \<Rightarrow> Inr v)"

text \<open>\<open>struct.pack('>i', e)\<close> on an element of \<open>imgArr\<close>: only an integer packs.\<close>

definition pack_i_img :: "img \<Rightarrow> error + byte list" where
  "pack_i_img e = (case e of ImgInt v \<Rightarrow> pack_i_be v | _ \<Rightarrow> Inl StructError)"

text \<open>\<open>img[i]\<close> on an element: a list is indexed, a string gives a one-character string.\<close>

definition img_index :: "img \<Rightarrow> nat \<Rightarrow> error + img" where
  "img_index e i =
     (case e of
        ImgList xs \<Rightarrow> (if i < length xs then Inr (xs ! i) else Inl IndexError)
      | ImgStr s \<Rightarrow> (if i < length s then Inr (ImgStr [s ! i]) else Inl IndexError)
      | ImgInt v \<Rightarrow> Inl TypeError)"

text \<open>The offset and length pair of a file name, the Z-region start added for \<open>z_\<close>.\<close>

definition pack_ref :: "int \<Rightarrow> (string \<rightharpoonup> nat \<times> nat) \<Rightarrow> string \<Rightarrow> error + byte list" where
  "pack_ref clock_z_img_start objs s =
     (if startswith s ''z_'' then
        ebind (lookup_obj objs s) (\<lambda>(off, len).
        ebind (pack_i_be (clock_z_img_start + int off)) (\<lambda>a.
        ebind (pack_i_be (int len)) (\<lambda>b. Inr (a @ b))))
      else
        ebind (lookup_obj objs s) (\<lambda>(off, len).
        ebind (pack_i_be (int off)) (\<lambda>a.
        ebind (pack_i_be (int len)) (\<lambda>b. Inr (a @ b)))))"

text \<open>\<open>struct.pack('30s', b)\<close>: cut or zero-padded to 30 bytes.\<close>

definition pack_30s :: "byte list \<Rightarrow> byte list" where
  "pack_30s b = take 30 b @ replicate (30 - length b) 0"

text \<open>The bytes one element of \<open>imgArr\<close> adds to \<open>clock_layer_data\<close>.\<close>

definition ser_img :: "int \<Rightarrow> (string \<rightharpoonup> nat \<times> nat) \<Rightarrow> layer \<Rightarrow> nat \<times> img
                       \<Rightarrow> error + byte list" where
  "ser_img clock_z_img_start objs l e =
     (case e of (idx, im) \<Rightarrow>
        if drawType l \<in> {10, 15, 21} then
          ebind (img_index im 0) (\<lambda>e0. ebind (pack_i_img e0) (\<lambda>a.
          ebind (img_index im 1) (\<lambda>e1. ebind (pack_i_img e1) (\<lambda>b.
          ebind (img_index im 2) (\<lambda>e2.
            case e2 of
              ImgStr s \<Rightarrow> ebind (pack_ref clock_z_img_start objs s) (\<lambda>c. Inr (a @ b @ c))
            | _ \<Rightarrow> Inl AttributeError)))))
        else if drawType l = 55 \<and> idx = 2 then
          (case im of ImgStr s \<Rightarrow> Inr (pack_30s (encode s)) | _ \<Rightarrow> Inl AttributeError)
        else if dataType l \<in> {64, 65, 66, 67} \<and> idx \<in> {10, 11} then pack_i_img im
        else if drawType l = 8 \<and> idx \<in> {0, 1, 2} then pack_i_img im
        else (case im of
                ImgInt v \<Rightarrow> pack_i_be v
              | ImgStr s \<Rightarrow> pack_ref clock_z_img_start objs s
              | ImgList xs \<Rightarrow> Inl AttributeError))"

text \<open>The fixed fields of a layer record, up to \<open>num\<close>.\<close>

definition ser_layer_head :: "layer \<Rightarrow> error + byte list" where
  "ser_layer_head l =
     ebind (pack_i_be (drawType l)) (\<lambda>a.
     ebind (pack_i_be (dataType l)) (\<lambda>b.
     ebind (if dataType l \<in> {130, 59, 52}
            then (case interval l of None \<Rightarrow> Inl (KeyError ''interval'') | Some v \<Rightarrow> pack_i_be v)
            else Inr []) (\<lambda>c.
     ebind (if dataType l \<in> {112}
            then (case area_num l of None \<Rightarrow> Inl (KeyError ''area_num'')
                  | Some vs \<Rightarrow> for_append pack_i_be vs [])
            else Inr []) (\<lambda>d.
     ebind (pack_i_be (alignType l)) (\<lambda>e.
     ebind (pack_i_be (layer_x l)) (\<lambda>f.
     ebind (pack_i_be (layer_y l)) (\<lambda>g.
     ebind (pack_i_be (num l)) (\<lambda>h.
       Inr (a @ b @ c @ d @ e @ f @ g @ h)))))))))"

definition ser_layer :: "int \<Rightarrow> (string \<rightharpoonup> nat \<times> nat) \<Rightarrow> layer \<Rightarrow> error + byte list" where
  "ser_layer clock_z_img_start objs l =
     ebind (ser_layer_head l) (\<lambda>hd_bytes.
       for_append (ser_img clock_z_img_start objs l) (enumerate 0 (imgArr l)) hd_bytes)"

definition ser_layers :: "int \<Rightarrow> (string \<rightharpoonup> nat \<times> nat) \<Rightarrow> layer list \<Rightarrow> error + byte list" where
  "ser_layers clock_z_img_start objs layer_list =
     for_append (ser_layer clock_z_img_start objs) layer_list []"

text \<open>Line 533: where the Z region starts in the file.\<close>

definition z_img_start :: "pack_state \<Rightarrow> int" where
  "z_img_start st = int (32 + clock_thumb_length st + clock_img_length st)"

text \<open>The bytes written to \<open>Clock<id>_res\<close>.\<close>

definition write_res :: "bool \<Rightarrow> int \<Rightarrow> pack_state \<Rightarrow> byte list \<Rightarrow> error + byte list" where
  "write_res is_idle clock_id st clock_layer_data =
     (let crc_str = (if is_idle then ''II@*24dG'' else ''Sb@*O2GG'');
          clock_thumb_start_addr = 32;
          start_addr = clock_thumb_start_addr + int (clock_thumb_length st)
      in
      ebind (pack_I_be clock_id) (\<lambda>a.
      ebind (pack_I_be clock_thumb_start_addr) (\<lambda>b.
      ebind (pack_I_be (int (clock_thumb_length st))) (\<lambda>c.
      ebind (pack_I_be start_addr) (\<lambda>d.
      ebind (pack_I_be (int (clock_img_length st))) (\<lambda>e.
      ebind (pack_I_be (start_addr + int (clock_img_length st) + int (clock_z_img_length st)))
        (\<lambda>f.
        Inr (encode crc_str @ a @ b @ c @ d @ e @ f @ clock_thumb_data st @ clock_img_data st
             @ clock_z_img_data st @ clock_layer_data))))))))"

text \<open>
  \<open>gen_clock_res\<close>.  \<open>ValidationFalse\<close> and \<open>ReturnedFalse e\<close> are its
  \<open>return False\<close> (after a failed validation, after an exception caught and logged);
  \<open>Raised e\<close> is an exception that leaves the function.  On success the result is
  \<open>clock_id\<close> and the bytes of the file written.
\<close>

datatype pack_error = ReturnedFalse error | Raised error | ValidationFalse

definition gen_clock_res ::
  "clock_dir \<Rightarrow> src_file list \<Rightarrow> int \<Rightarrow> string \<Rightarrow> bool \<Rightarrow> byte list option option
   \<Rightarrow> pack_error + (int \<times> byte list)" where
  "gen_clock_res d file_list clock_id_base clock_size idle_magic thumbnail_path_override =
     (case check_clock d of
        Inl e \<Rightarrow> Inl (Raised e)
      | Inr (lg, ok) \<Rightarrow>
          if \<not> ok then Inl ValidationFalse
          else case map_of g_clock_id_prefix_dict clock_size of
            None \<Rightarrow> Inl (Raised (KeyError clock_size))
          | Some prefix \<Rightarrow>
              let clock_id = clock_id_base OR prefix in
              case build_regions thumbnail_path_override file_list of
                Inl e \<Rightarrow> Inl (ReturnedFalse e)
              | Inr st \<Rightarrow>
                  (case config_json d of
                     Config layer_list \<Rightarrow>
                       (case ser_layers (z_img_start st) (img_objs st) layer_list of
                          Inl e \<Rightarrow> Inl (Raised e)
                        | Inr clock_layer_data \<Rightarrow>
                            (case write_res idle_magic clock_id st clock_layer_data of
                               Inl e \<Rightarrow> Inl (Raised e)
                             | Inr file \<Rightarrow> Inr (clock_id, file)))
                   | _ \<Rightarrow> Inl (ReturnedFalse FileNotFound)))"

text \<open>
  \<open>cli_main\<close> after argument parsing: the range check on the clock id, then
  \<open>gen_clock_res\<close>; \<open>SystemExit(2)\<close> when that returns \<open>False\<close>.
\<close>

datatype cli_error = ValueError | Exit2 | Crashed error

definition cli_main ::
  "clock_dir \<Rightarrow> src_file list \<Rightarrow> int \<Rightarrow> string \<Rightarrow> bool \<Rightarrow> byte list option option
   \<Rightarrow> cli_error + (int \<times> byte list)" where
  "cli_main d file_list clock_id_base clock_size idle thumbnail =
     (if \<not> (50000 \<le> clock_id_base \<and> clock_id_base \<le> 65535) then Inl ValueError
      else case gen_clock_res d file_list clock_id_base clock_size idle thumbnail of
             Inl (Raised e) \<Rightarrow> Inl (Crashed e)
           | Inl _ \<Rightarrow> Inl Exit2
           | Inr r \<Rightarrow> Inr r)"


section \<open>Sample inputs\<close>

text \<open>A raw RGB565 chunk of four payload bytes whose header declares two.\<close>

definition raw_chunk_demo :: "byte list" where
  "raw_chunk_demo = [73, 0, 2, 0, 0, 1, 32, 0, 0, 0, 0, 0, 0, 0, 0, 0, 10, 11, 12, 13]"



text \<open>Scenario 5 of the spec: a layer of draw type 55 with a text in slot 2.\<close>

definition text_layer_demo :: layer where
  "text_layer_demo =
     \<lparr>drawType = 55, dataType = 0, alignType = 0, layer_x = 0, layer_y = 0, num = 3,
      interval = None, area_num = None,
      imgArr = [ImgStr ''pic.bmp'', ImgInt 10, ImgStr ''HELLO''],
      layer_name = Some ''text''\<rparr>"




text \<open>Watchface directories for the validator.\<close>

definition bg_layer_demo :: "int \<Rightarrow> img list \<Rightarrow> string \<Rightarrow> layer" where
  "bg_layer_demo n imgs nm =
     \<lparr>drawType = 0, dataType = 0, alignType = 0, layer_x = 0, layer_y = 0, num = n,
      interval = None, area_num = None, imgArr = imgs, layer_name = Some nm\<rparr>"

definition validate_a_demo :: clock_dir where
  "validate_a_demo =
     \<lparr>is_dir = True, config_json = Config [bg_layer_demo 1 [ImgStr ''a.png''] ''bg''],
      file_names = [''config.json'']\<rparr>"

definition validate_b_demo :: clock_dir where
  "validate_b_demo =
     \<lparr>is_dir = True, config_json = Config [bg_layer_demo 2 [ImgStr ''a.png''] ''bg''],
      file_names = [''config.json'', ''A.PNG'']\<rparr>"

definition validate_c_demo :: clock_dir where
  "validate_c_demo =
     \<lparr>is_dir = True,
      config_json = Config [bg_layer_demo 2 [ImgStr ''a.png''] ''bg'',
                            bg_layer_demo 1 [ImgList [ImgInt 1, ImgInt 2, ImgStr ''B.png'']] ''''],
      file_names = [''config.json'']\<rparr>"

section \<open>Invariant of the loop over file_list\<close>

text \<open>The region a file name is stored in, chosen by its \<open>z_\<close> prefix.\<close>

definition region_of :: "pack_state \<Rightarrow> string \<Rightarrow> byte list" where
  "region_of st k = (if startswith k ''z_'' then clock_z_img_data st else clock_img_data st)"

text \<open>
  The three length counters are the lengths of the data gathered, and every entry
  \<open>(off, n)\<close> of \<open>img_objs\<close> locates, in the region of its key, the chunk of a file of
  \<open>F\<close> with that name.
\<close>

definition regions_inv :: "src_file set \<Rightarrow> pack_state \<Rightarrow> bool" where
  "regions_inv F st =
     (clock_thumb_length st = length (clock_thumb_data st) \<and>
      clock_img_length st = length (clock_img_data st) \<and>
      clock_z_img_length st = length (clock_z_img_data st) \<and>
      (\<forall>k off n. img_objs st k = Some (off, n) \<longrightarrow>
         off + n \<le> length (region_of st k) \<and>
         (\<exists>f \<in> F. file_name_of (base_name f) = Inr k \<and>
                   in_data_of f = Inr (slice (region_of st k) off (off + n)))))"



text \<open>Scenario 1 of the spec, reduced: one layer showing one JPEG of three bytes.\<close>

definition pack_dir_demo :: clock_dir where
  "pack_dir_demo =
     \<lparr>is_dir = True, config_json = Config [bg_layer_demo 1 [ImgStr ''bg.jpg''] ''bg''],
      file_names = [''bg.jpg'', ''config.json'']\<rparr>"

definition pack_files_demo :: "src_file list" where
  "pack_files_demo = [\<lparr>base_name = ''bg.jpg'', contents = [1, 2, 3], img_size = Some (360, 360)\<rparr>]"

definition pack_state_demo :: pack_state where
  "pack_state_demo =
     \<lparr>clock_thumb_data = [], clock_thumb_length = 0,
      clock_img_data = [9, 0, 3, 0, 0, 104, 129, 22, 0, 0, 0, 0, 0, 0, 0, 0, 1, 2, 3],
      clock_img_length = 19, clock_z_img_data = [], clock_z_img_length = 0,
      img_objs = [''bg.jpg'' \<mapsto> (0, 19)]\<rparr>"

definition pack_file_demo :: "byte list" where
  "pack_file_demo =
     [83, 98, 64, 42, 79, 50, 71, 71,  0, 7, 195, 81,  0, 0, 0, 32,  0, 0, 0, 0,
      0, 0, 0, 32,  0, 0, 0, 19,  0, 0, 0, 51,
      9, 0, 3, 0, 0, 104, 129, 22, 0, 0, 0, 0, 0, 0, 0, 0, 1, 2, 3,
      0, 0, 0, 0,  0, 0, 0, 0,  0, 0, 0, 0,  0, 0, 0, 0,  0, 0, 0, 0,  0, 0, 0, 1,
      0, 0, 0, 0,  0, 0, 0, 19]"

text \<open>
  The same watchface with the image stored as \<open>BG.jpg\<close> while config.json says
  \<open>bg.jpg\<close>, and a source whose thumbnail is named \<open>Thumbnail.png\<close>.
\<close>

definition case_dir_demo :: clock_dir where
  "case_dir_demo =
     \<lparr>is_dir = True, config_json = Config [bg_layer_demo 1 [ImgStr ''bg.jpg''] ''bg''],
      file_names = [''BG.jpg'', ''config.json'']\<rparr>"

definition case_files_demo :: "src_file list" where
  "case_files_demo = [\<lparr>base_name = ''BG.jpg'', contents = [1, 2, 3], img_size = Some (360, 360)\<rparr>]"

definition case_state_demo :: pack_state where
  "case_state_demo =
     \<lparr>clock_thumb_data = [], clock_thumb_length = 0,
      clock_img_data = [9, 0, 3, 0, 0, 104, 129, 22, 0, 0, 0, 0, 0, 0, 0, 0, 1, 2, 3],
      clock_img_length = 19, clock_z_img_data = [], clock_z_img_length = 0,
      img_objs = [''BG.jpg'' \<mapsto> (0, 19)]\<rparr>"

definition thumb_files_demo :: "src_file list" where
  "thumb_files_demo =
     [\<lparr>base_name = ''Thumbnail.png.bmp.RGB'', contents = [7, 8], img_size = None\<rparr>]"

text \<open>
  A 1x1 bottom-up BMP of the given bit depth: a 54-byte header and one 4-byte row.
\<close>

definition bmp_depth_demo :: "byte \<Rightarrow> byte list" where
  "bmp_depth_demo d =
     [66, 77, 58, 0, 0, 0, 0, 0, 0, 0, 54, 0, 0, 0, 40, 0, 0, 0,
      1, 0, 0, 0, 1, 0, 0, 0, 1, 0, d, 0,
      0, 0, 0, 0, 0, 0, 0, 0, 0, 0, 0, 0, 0, 0, 0, 0, 0, 0, 0, 0, 0, 0, 0, 0,
      1, 2, 3, 4]"

section \<open>Properties of the transcoder\<close>






lemma unat_byte_of_nat: "unat (of_nat n :: byte) = n mod 256"
  by (simp add: unat_of_nat)








text \<open>
  At the standard depths of 16, 24 and 32 bits per pixel the target format is the first match of:
  stem ending 8888 (type 71 at 32 bits, otherwise the file is reported and aborted),
  stem ending 1555 at 32 bits (type 74), stem ending 565 or 16/24 bits (type 73),
  anything else at 32 bits (type 72); no other combination aborts.
\<close>

lemma select_format_standard_depths:
  assumes "bpp_bits \<in> {16, 24, 32}"
  shows "(endswith stem ''8888'' \<and> bpp_bits = 32 \<longrightarrow>
            select_format stem (drop_bit 3 bpp_bits) = Inr (8888, 71)) \<and>
         (endswith stem ''8888'' \<and> bpp_bits \<noteq> 32 \<longrightarrow>
            select_format stem (drop_bit 3 bpp_bits)
              = Inl (FormatMismatch 8888 (drop_bit 3 bpp_bits))) \<and>
         (\<not> endswith stem ''8888'' \<and> endswith stem ''1555'' \<and> bpp_bits = 32 \<longrightarrow>
            select_format stem (drop_bit 3 bpp_bits) = Inr (1555, 74)) \<and>
         (\<not> endswith stem ''8888'' \<and> \<not> (endswith stem ''1555'' \<and> bpp_bits = 32) \<and>
          (endswith stem ''565'' \<or> bpp_bits \<in> {16, 24}) \<longrightarrow>
            select_format stem (drop_bit 3 bpp_bits) = Inr (565, 73)) \<and>
         (\<not> endswith stem ''8888'' \<and> \<not> endswith stem ''1555'' \<and> \<not> endswith stem ''565'' \<and>
          bpp_bits = 32 \<longrightarrow>
            select_format stem (drop_bit 3 bpp_bits) = Inr (8565, 72)) \<and>
         (\<forall>e. select_format stem (drop_bit 3 bpp_bits) = Inl e \<longrightarrow>
            endswith stem ''8888'' \<and> bpp_bits \<noteq> 32)"
proof -
  from assms consider "bpp_bits = 16" | "bpp_bits = 24" | "bpp_bits = 32" by auto
  then show ?thesis
  proof cases
    case 1
    then have "drop_bit 3 bpp_bits = 2" by (simp add: drop_bit_eq_div)
    then show ?thesis using 1 by (simp add: select_format_def)
  next
    case 2
    then have "drop_bit 3 bpp_bits = 3" by (simp add: drop_bit_eq_div)
    then show ?thesis using 2 by (simp add: select_format_def)
  next
    case 3
    then have "drop_bit 3 bpp_bits = 4" by (simp add: drop_bit_eq_div)
    then show ?thesis using 3 by (simp add: select_format_def)
  qed
qed

text \<open>A depth whose \<open>bpp_bits >> 3\<close> is not 2, 3 or 4 never reaches the selection.\<close>

lemma bmp_2_rgb_unsupported_bpp:
  assumes "54 \<le> length in_data" "slice in_data 0 2 = encode ''BM''"
    and "drop_bit 3 (le_uint (slice in_data 28 30)) \<notin> {2, 3, 4}"
  shows "bmp_2_rgb bn in_data = Inl (UnsupportedBpp (le_uint (slice in_data 28 30)))"
  using assms by (simp add: bmp_2_rgb_def Let_def)

text \<open>The type byte of a written chunk is the one the selection gave.\<close>

lemma bmp_2_rgb_img_type:
  assumes "bmp_2_rgb bn in_data = Inr blob"
  shows "\<exists>fmt ty. select_format (hd (split_char CHR ''.'' bn))
                    (drop_bit 3 (le_uint (slice in_data 28 30))) = Inr (fmt, ty) \<and>
                  blob ! 0 = of_nat ty"
  using assms
  by (auto simp: bmp_2_rgb_def Let_def ebind_def chunk_header_def
           split: if_splits sum.splits prod.splits)

text \<open>The header fields and the pixel row of the 1x1 sample BMP.\<close>

lemma bmp_depth_demo_fields:
  "54 \<le> length (bmp_depth_demo d)"
  "slice (bmp_depth_demo d) 0 2 = encode ''BM''"
  "le_uint (slice (bmp_depth_demo d) 28 30) = unat d"
  "le_uint (slice (bmp_depth_demo d) 10 14) = 54"
  "le_uint (slice (bmp_depth_demo d) 18 22) = 1"
  "le_uint (slice (bmp_depth_demo d) 22 26) = 1"
  "slice (bmp_depth_demo d) 54 58 = [1, 2, 3, 4]"
  by (simp_all add: bmp_depth_demo_def slice_def encode_def)

text \<open>
  C5 does not hold for every BMP input.  The transcoder decides on the bytes per pixel,
  \<open>bpp_bits >> 3\<close>: an 8-bit BMP whose stem ends in 565 is reported as unsupported and not
  given type 73, a 20-bit BMP with a plain stem is given type 73 and not aborted, and a
  33-bit BMP whose stem ends in 8888 is given type 71 and not aborted.
\<close>

theorem bmp_2_rgb_depth_counterexample:
  "bmp_2_rgb ''x565.png.bmp'' (bmp_depth_demo 8) = Inl (UnsupportedBpp 8) \<and>
   bmp_2_rgb ''bg.png.bmp'' (bmp_depth_demo 20)
     = Inr [73, 0, 2, 0, 0, 1, 16, 0, 0, 0, 0, 0, 0, 0, 0, 0, 1, 2] \<and>
   bmp_2_rgb ''x8888.png.bmp'' (bmp_depth_demo 33)
     = Inr [71, 0, 4, 0, 0, 1, 16, 0, 0, 0, 0, 0, 0, 0, 0, 0, 1, 2, 3, 4]"
proof -
  have s1: "hd (split_char CHR ''.'' ''x565.png.bmp'') = ''x565''"
    and s2: "hd (split_char CHR ''.'' ''bg.png.bmp'') = ''bg''"
    and s3: "hd (split_char CHR ''.'' ''x8888.png.bmp'') = ''x8888''"
    by simp_all
  have d1: "drop_bit 3 (8 :: nat) = 1" and d2: "drop_bit 3 (20 :: nat) = 2"
    and d3: "drop_bit 3 (33 :: nat) = 4"
    by (simp_all add: drop_bit_eq_div)
  have a: "bmp_2_rgb ''x565.png.bmp'' (bmp_depth_demo 8) = Inl (UnsupportedBpp 8)"
    using bmp_2_rgb_unsupported_bpp [of "bmp_depth_demo 8" "''x565.png.bmp''"]
    by (simp add: bmp_depth_demo_fields d1)
  have sign: "(1::int) AND 0x80000000 = 0" by simp
  have yr: "y_range False (Suc 0) = [0]" by (simp add: y_range_def)
  have stride: "((1 * 2 + 3) div 4) * 4 = (4::nat)" "((1 * 4 + 3) div 4) * 4 = (4::nat)"
    by simp_all
  have f2: "select_format ''bg'' 2 = Inr (565, 73)"
    and f3: "select_format ''x8888'' 4 = Inr (8888, 71)"
    by (simp_all add: select_format_def endswith_def)
  have row2: "pack_row 565 2 (Suc 0) [1, 2, 3, 4] = Inr [1, 2]"
    and row3: "pack_row 8888 4 (Suc 0) [1, 2, 3, 4] = Inr [1, 2, 3, 4]"
    by (simp_all add: pack_row_def)
  have two: "Suc (Suc 0) = 2" and four: "Suc (Suc (Suc (Suc 0))) = 4" by simp_all
  have rep: "replicate 8 (0 :: byte) = [0, 0, 0, 0, 0, 0, 0, 0]"
    by (simp add: numeral_eq_Suc)
  have len: "length (bmp_depth_demo d) = 58" for d
    by (simp add: bmp_depth_demo_def)
  have u: "unat (20 :: byte) = 20" "unat (33 :: byte) = 33" by simp_all
  have b: "bmp_2_rgb ''bg.png.bmp'' (bmp_depth_demo 20)
             = Inr [73, 0, 2, 0, 0, 1, 16, 0, 0, 0, 0, 0, 0, 0, 0, 0, 1, 2]"
    unfolding bmp_2_rgb_def Let_def bmp_depth_demo_fields u s2 d2 f2
    by (simp add: sign stride yr bmp_depth_demo_fields len row2 ebind_def chunk_header_def
          two rep drop_bit_eq_div)
  have c: "bmp_2_rgb ''x8888.png.bmp'' (bmp_depth_demo 33)
             = Inr [71, 0, 4, 0, 0, 1, 16, 0, 0, 0, 0, 0, 0, 0, 0, 0, 1, 2, 3, 4]"
    unfolding bmp_2_rgb_def Let_def bmp_depth_demo_fields u s3 d3 f3
    by (simp add: sign stride yr bmp_depth_demo_fields len row3 ebind_def chunk_header_def
          four rep drop_bit_eq_div)
  from a b c show ?thesis by blast
qed

text \<open>
  C5, amended.  With \<open>bpp = bpp_bits >> 3\<close>: a BMP whose \<open>bpp\<close> is not 2, 3 or 4 is
  reported as unsupported and aborted before any selection.  Otherwise the target format
  is the first match of: stem ending 8888 (type 71 at \<open>bpp = 4\<close>, otherwise the file is
  reported and aborted), stem ending 1555 at \<open>bpp = 4\<close> (type 74), stem ending 565 or
  \<open>bpp\<close> 2 or 3 (type 73), anything else at \<open>bpp = 4\<close> (type 72).  No other combination
  aborts, an abort of the selection is the transcoder's result, and the type byte of a
  written chunk is the selected one.
\<close>

theorem select_format_by_bytes:
  assumes bmp: "54 \<le> length in_data" "slice in_data 0 2 = encode ''BM''"
    and bits: "bits = le_uint (slice in_data 28 30)"
    and bpp: "bpp = drop_bit 3 bits"
    and stem: "stem = hd (split_char CHR ''.'' bn)"
  shows "(bpp \<notin> {2, 3, 4} \<longrightarrow> bmp_2_rgb bn in_data = Inl (UnsupportedBpp bits)) \<and>
         (bpp \<in> {2, 3, 4} \<longrightarrow>
            (endswith stem ''8888'' \<and> bpp = 4 \<longrightarrow>
               select_format stem bpp = Inr (8888, 71)) \<and>
            (endswith stem ''8888'' \<and> bpp \<noteq> 4 \<longrightarrow>
               select_format stem bpp = Inl (FormatMismatch 8888 bpp)) \<and>
            (\<not> endswith stem ''8888'' \<and> endswith stem ''1555'' \<and> bpp = 4 \<longrightarrow>
               select_format stem bpp = Inr (1555, 74)) \<and>
            (\<not> endswith stem ''8888'' \<and> \<not> (endswith stem ''1555'' \<and> bpp = 4) \<and>
             (endswith stem ''565'' \<or> bpp \<in> {2, 3}) \<longrightarrow>
               select_format stem bpp = Inr (565, 73)) \<and>
            (\<not> endswith stem ''8888'' \<and> \<not> endswith stem ''1555'' \<and>
             \<not> endswith stem ''565'' \<and> bpp = 4 \<longrightarrow>
               select_format stem bpp = Inr (8565, 72)) \<and>
            (\<forall>e. select_format stem bpp = Inl e \<longrightarrow>
               endswith stem ''8888'' \<and> bpp \<noteq> 4 \<and> bmp_2_rgb bn in_data = Inl e) \<and>
            (\<forall>blob. bmp_2_rgb bn in_data = Inr blob \<longrightarrow>
               (\<exists>fmt ty. select_format stem bpp = Inr (fmt, ty) \<and> blob ! 0 = of_nat ty)))"
proof (rule conjI; rule impI)
  assume "bpp \<notin> {2, 3, 4}"
  then show "bmp_2_rgb bn in_data = Inl (UnsupportedBpp bits)"
    using bmp bits bpp bmp_2_rgb_unsupported_bpp [of in_data bn] by simp
next
  assume ok: "bpp \<in> {2, 3, 4}"
  have table:
    "(endswith stem ''8888'' \<and> bpp = 4 \<longrightarrow> select_format stem bpp = Inr (8888, 71)) \<and>
     (endswith stem ''8888'' \<and> bpp \<noteq> 4 \<longrightarrow>
        select_format stem bpp = Inl (FormatMismatch 8888 bpp)) \<and>
     (\<not> endswith stem ''8888'' \<and> endswith stem ''1555'' \<and> bpp = 4 \<longrightarrow>
        select_format stem bpp = Inr (1555, 74)) \<and>
     (\<not> endswith stem ''8888'' \<and> \<not> (endswith stem ''1555'' \<and> bpp = 4) \<and>
      (endswith stem ''565'' \<or> bpp \<in> {2, 3}) \<longrightarrow>
        select_format stem bpp = Inr (565, 73)) \<and>
     (\<not> endswith stem ''8888'' \<and> \<not> endswith stem ''1555'' \<and>
      \<not> endswith stem ''565'' \<and> bpp = 4 \<longrightarrow>
        select_format stem bpp = Inr (8565, 72))"
    by (simp add: select_format_def)
  have abort: "endswith stem ''8888'' \<and> bpp \<noteq> 4 \<and> bmp_2_rgb bn in_data = Inl e"
    if e: "select_format stem bpp = Inl e" for e
  proof -
    from ok e have m: "endswith stem ''8888''" "bpp \<noteq> 4"
      by (auto simp: select_format_def split: if_splits)
    from bmp ok e have "bmp_2_rgb bn in_data = Inl e"
      unfolding bits bpp stem by (auto simp: bmp_2_rgb_def Let_def)
    with m show ?thesis by simp
  qed
  have ty: "\<exists>fmt ty. select_format stem bpp = Inr (fmt, ty) \<and> blob ! 0 = of_nat ty"
    if "bmp_2_rgb bn in_data = Inr blob" for blob
    using bmp_2_rgb_img_type [OF that] unfolding bits bpp stem .
  from table abort ty
  show "(endswith stem ''8888'' \<and> bpp = 4 \<longrightarrow>
               select_format stem bpp = Inr (8888, 71)) \<and>
            (endswith stem ''8888'' \<and> bpp \<noteq> 4 \<longrightarrow>
               select_format stem bpp = Inl (FormatMismatch 8888 bpp)) \<and>
            (\<not> endswith stem ''8888'' \<and> endswith stem ''1555'' \<and> bpp = 4 \<longrightarrow>
               select_format stem bpp = Inr (1555, 74)) \<and>
            (\<not> endswith stem ''8888'' \<and> \<not> (endswith stem ''1555'' \<and> bpp = 4) \<and>
             (endswith stem ''565'' \<or> bpp \<in> {2, 3}) \<longrightarrow>
               select_format stem bpp = Inr (565, 73)) \<and>
            (\<not> endswith stem ''8888'' \<and> \<not> endswith stem ''1555'' \<and>
             \<not> endswith stem ''565'' \<and> bpp = 4 \<longrightarrow>
               select_format stem bpp = Inr (8565, 72)) \<and>
            (\<forall>e. select_format stem bpp = Inl e \<longrightarrow>
               endswith stem ''8888'' \<and> bpp \<noteq> 4 \<and> bmp_2_rgb bn in_data = Inl e) \<and>
            (\<forall>blob. bmp_2_rgb bn in_data = Inr blob \<longrightarrow>
               (\<exists>fmt ty. select_format stem bpp = Inr (fmt, ty) \<and> blob ! 0 = of_nat ty))"
    by blast
qed

theorem select_format_by_bytes_witness:
  "54 \<le> length (bmp_depth_demo 24) \<and> slice (bmp_depth_demo 24) 0 2 = encode ''BM'' \<and>
   le_uint (slice (bmp_depth_demo 24) 28 30) = 24 \<and> drop_bit 3 (24 :: nat) = 3 \<and>
   hd (split_char CHR ''.'' ''face_8888.png.bmp'') = ''face_8888'' \<and>
   select_format ''face_8888'' 3 = Inl (FormatMismatch 8888 3) \<and>
   bmp_2_rgb ''face_8888.png.bmp'' (bmp_depth_demo 24) = Inl (FormatMismatch 8888 3) \<and>
   hd (split_char CHR ''.'' ''hand1555.png.bmp'') = ''hand1555'' \<and>
   select_format ''hand1555'' 3 = Inr (565, 73) \<and>
   le_uint (slice (bmp_depth_demo 8) 28 30) = 8 \<and> drop_bit 3 (8 :: nat) = 1 \<and>
   bmp_2_rgb ''hand1555.png.bmp'' (bmp_depth_demo 8) = Inl (UnsupportedBpp 8)"
proof -
  have l: "54 \<le> length (bmp_depth_demo 24)" "54 \<le> length (bmp_depth_demo 8)"
    and m: "slice (bmp_depth_demo 24) 0 2 = encode ''BM''"
           "slice (bmp_depth_demo 8) 0 2 = encode ''BM''"
    by (simp_all add: bmp_depth_demo_fields)
  have b24: "24 = le_uint (slice (bmp_depth_demo 24) 28 30)"
    and b8: "8 = le_uint (slice (bmp_depth_demo 8) 28 30)"
    by (simp_all add: bmp_depth_demo_fields)
  have d24: "3 = drop_bit 3 (24 :: nat)" and d8: "1 = drop_bit 3 (8 :: nat)"
    by (simp_all add: drop_bit_eq_div)
  have s1: "''face_8888'' = hd (split_char CHR ''.'' ''face_8888.png.bmp'')"
    and s2: "''hand1555'' = hd (split_char CHR ''.'' ''hand1555.png.bmp'')"
    by simp_all
  have e1: "endswith ''face_8888'' ''8888''" by (simp add: endswith_def)
  have e2: "\<not> endswith ''hand1555'' ''8888''" by (simp add: endswith_def)
  note t1 = select_format_by_bytes [OF l(1) m(1) b24 d24 s1]
    and t2 = select_format_by_bytes [OF l(1) m(1) b24 d24 s2]
    and t3 = select_format_by_bytes [OF l(2) m(2) b8 d8 s2]
  from t1 e1 have r1: "select_format ''face_8888'' 3 = Inl (FormatMismatch 8888 3)" by simp
  with t1 have r2: "bmp_2_rgb ''face_8888.png.bmp'' (bmp_depth_demo 24)
                      = Inl (FormatMismatch 8888 3)" by simp
  from t2 e2 have r3: "select_format ''hand1555'' 3 = Inr (565, 73)" by simp
  from t3 have r4: "bmp_2_rgb ''hand1555.png.bmp'' (bmp_depth_demo 8) = Inl (UnsupportedBpp 8)"
    by simp
  from l m b24 b8 d24 d8 s1 s2 r1 r2 r3 r4 show ?thesis by simp
qed

section \<open>Properties of the compressor\<close>






lemma header_payload_len_byte1:
  "length header = 16 \<Longrightarrow> header_payload_len (header[1 := 1]) = header_payload_len header"
  by (simp add: header_payload_len_def)

text \<open>
  C10. A raw chunk whose declared length is positive and smaller than the payload is not
  repaired: bytes 2 to 4 stay, only the first \<open>payload_len\<close> bytes are compressed, and the
  output is the one the chunk cut to \<open>16 + payload_len\<close> bytes would give.
\<close>

theorem compress_chunk_short_declared:
  assumes "16 \<le> length blob" "blob ! 1 \<noteq> 1"
    and "0 < header_payload_len (take 16 blob)"
    and "header_payload_len (take 16 blob) < length (drop 16 blob)"
  shows "compress_chunk lz4 blob =
           (case lz4 (take (header_payload_len (take 16 blob)) (drop 16 blob)) of
              None \<Rightarrow> Failed
            | Some c \<Rightarrow> Written ((take 16 blob)[1 := 1] @ c)) \<and>
         header_payload_len ((take 16 blob)[1 := 1]) = header_payload_len (take 16 blob) \<and>
         compress_chunk lz4 blob
           = compress_chunk lz4 (take (16 + header_payload_len (take 16 blob)) blob)"
proof -
  let ?p = "header_payload_len (take 16 blob)"
  have 1: "compress_chunk lz4 blob =
           (case lz4 (take ?p (drop 16 blob)) of
              None \<Rightarrow> Failed
            | Some c \<Rightarrow> Written ((take 16 blob)[1 := 1] @ c))"
    using assms by (simp add: compress_chunk_def Let_def)
  have 2: "header_payload_len ((take 16 blob)[1 := 1]) = ?p"
    by (simp add: header_payload_len_def)
  let ?cut = "take (16 + ?p) blob"
  have l: "16 \<le> length ?cut" using assms(1) by simp
  have h: "take 16 ?cut = take 16 blob" by (simp add: min_def)
  have b1: "?cut ! 1 = blob ! 1" by simp
  have d: "drop 16 ?cut = take ?p (drop 16 blob)" by (simp add: drop_take)
  have "compress_chunk lz4 ?cut =
           (case lz4 (take ?p (drop 16 blob)) of
              None \<Rightarrow> Failed
            | Some c \<Rightarrow> Written ((take 16 blob)[1 := 1] @ c))"
    using assms l unfolding compress_chunk_def Let_def h b1 d
    by (simp add: min_def)
  with 1 have 3: "compress_chunk lz4 blob = compress_chunk lz4 ?cut" by simp
  from 1 2 3 show ?thesis by blast
qed

theorem compress_chunk_short_declared_witness:
  "16 \<le> length raw_chunk_demo \<and> raw_chunk_demo ! 1 \<noteq> 1 \<and>
   0 < header_payload_len (take 16 raw_chunk_demo) \<and>
   header_payload_len (take 16 raw_chunk_demo) < length (drop 16 raw_chunk_demo) \<and>
   compress_chunk Some raw_chunk_demo
     = Written [73, 1, 2, 0, 0, 1, 32, 0, 0, 0, 0, 0, 0, 0, 0, 0, 10, 11]"
proof -
  have p: "header_payload_len (take 16 raw_chunk_demo) = 2"
    by (simp add: raw_chunk_demo_def header_payload_len_def)
  have a: "16 \<le> length raw_chunk_demo" and b: "raw_chunk_demo ! 1 \<noteq> 1"
    and c: "0 < header_payload_len (take 16 raw_chunk_demo)"
    and d: "header_payload_len (take 16 raw_chunk_demo) < length (drop 16 raw_chunk_demo)"
    unfolding p by (simp_all add: raw_chunk_demo_def)
  from compress_chunk_short_declared [OF a b c d, of Some]
  have "compress_chunk Some raw_chunk_demo =
          Written ((take 16 raw_chunk_demo)[1 := 1] @ take 2 (drop 16 raw_chunk_demo))"
    unfolding p by simp
  then have "compress_chunk Some raw_chunk_demo
     = Written [73, 1, 2, 0, 0, 1, 32, 0, 0, 0, 0, 0, 0, 0, 0, 0, 10, 11]"
    by (simp add: raw_chunk_demo_def)
  with a b c d show ?thesis by blast
qed





section \<open>Properties of the layer serializer\<close>





text \<open>
  The whole record of the scenario: 24 bytes of fixed fields, the pair of \<open>pic.bmp\<close>,
  the integer 10, then the 30 text bytes.
\<close>

lemma ser_layer_text_demo:
  "ser_layer 32 [''pic.bmp'' \<mapsto> (0, 100)] text_layer_demo =
     Inr (be_bytes4 55 @ be_bytes4 0 @ be_bytes4 0 @ be_bytes4 0 @ be_bytes4 0 @ be_bytes4 3 @
          be_bytes4 0 @ be_bytes4 100 @ be_bytes4 10 @
          [72, 69, 76, 76, 79] @ replicate 25 0)"
  by (simp add: ser_layer_def ser_layer_head_def ser_img_def text_layer_demo_def ebind_def
        pack_i_be_def pack_ref_def lookup_obj_def startswith_def pack_30s_def encode_def
        enumerate_eq_zip upt_rec)

section \<open>The 24-bit length field of the transcoder\<close>

















section \<open>Properties of the validator\<close>

lemma wf_img_list: "wf_img (ImgList xs) \<Longrightarrow> \<exists>a b s. xs = [ImgInt a, ImgInt b, ImgStr s]"
  by (induction "ImgList xs" rule: wf_img.induct) auto

lemma check_ref_cases:
  "\<exists>cil'. check_ref my_list r (lg, cil, ec) =
     (lg @ (if r \<in> set my_list then [] else [ImageMissing r]), cil',
      ec + length (if r \<in> set my_list then [] else [ImageMissing r]))"
  by (simp add: check_ref_def)

lemma check_img_spec:
  assumes "wf_img e"
  shows "\<exists>cil'. check_img my_list dt (lg, cil, ec) (idx, e) =
           Inr (lg @ spec_img_mismatches my_list dt (idx, e), cil',
                ec + length (spec_img_mismatches my_list dt (idx, e)))"
proof (cases e)
  case (ImgInt v)
  then show ?thesis by (simp add: spec_img_mismatches_def)
next
  case (ImgStr s)
  show ?thesis
  proof (cases "dt = 55 \<and> idx = 2")
    case True
    with ImgStr show ?thesis by (simp add: spec_img_mismatches_def)
  next
    case False
    with ImgStr check_ref_cases [of my_list "lower s" lg cil ec]
    show ?thesis by (auto simp: spec_img_mismatches_def)
  qed
next
  case (ImgList xs)
  with assms obtain a b s where xs: "xs = [ImgInt a, ImgInt b, ImgStr s]"
    using wf_img_list by blast
  with ImgList check_ref_cases [of my_list "lower s" lg cil ec]
  show ?thesis by (auto simp: spec_img_mismatches_def)
qed

lemma check_imgs_spec:
  assumes "list_all wf_img (map snd es)"
  shows "\<exists>cil'. check_imgs my_list dt (lg, cil, ec) es =
           Inr (lg @ concat (map (spec_img_mismatches my_list dt) es), cil',
                ec + length (concat (map (spec_img_mismatches my_list dt) es)))"
  using assms
proof (induction es arbitrary: lg cil ec)
  case Nil
  then show ?case by simp
next
  case (Cons e es)
  obtain idx im where e: "e = (idx, im)" by (cases e)
  with Cons.prems have w: "wf_img im" and ws: "list_all wf_img (map snd es)" by simp_all
  from check_img_spec [OF w, of my_list dt lg cil ec idx] obtain cil1 where
    1: "check_img my_list dt (lg, cil, ec) (idx, im) =
           Inr (lg @ spec_img_mismatches my_list dt (idx, im), cil1,
                ec + length (spec_img_mismatches my_list dt (idx, im)))" by blast
  from Cons.IH [OF ws, of "lg @ spec_img_mismatches my_list dt (idx, im)" cil1
                   "ec + length (spec_img_mismatches my_list dt (idx, im))"]
  obtain cil2 where
    2: "check_imgs my_list dt (lg @ spec_img_mismatches my_list dt (idx, im), cil1,
                ec + length (spec_img_mismatches my_list dt (idx, im))) es =
           Inr ((lg @ spec_img_mismatches my_list dt (idx, im))
                  @ concat (map (spec_img_mismatches my_list dt) es), cil2,
                (ec + length (spec_img_mismatches my_list dt (idx, im)))
                  + length (concat (map (spec_img_mismatches my_list dt) es)))" by blast
  show ?case using 1 2 e by simp
qed

lemma check_item_spec:
  assumes "wf_layer l"
  shows "\<exists>cil'. check_item my_list (lg, cil, ec) l =
           Inr (lg @ spec_layer_mismatches my_list l, cil',
                ec + length (spec_layer_mismatches my_list l))"
proof -
  have ws: "list_all wf_img (map snd (enumerate 0 (imgArr l)))"
    using assms by (simp add: wf_layer_def)
  show ?thesis
  proof (cases "int (length (imgArr l)) \<noteq> num l")
    case True
    with assms obtain n where n: "layer_name l = Some n" by (auto simp: wf_layer_def)
    let ?m = "[CountMismatch (if n \<noteq> [] then Some n else None)]"
    from check_imgs_spec [OF ws, of my_list "drawType l" "lg @ ?m" cil "ec + 1"]
    obtain cil' where "check_imgs my_list (drawType l) (lg @ ?m, cil, ec + 1)
                         (enumerate 0 (imgArr l)) =
           Inr ((lg @ ?m) @ concat (map (spec_img_mismatches my_list (drawType l))
                                      (enumerate 0 (imgArr l))), cil',
                (ec + 1) + length (concat (map (spec_img_mismatches my_list (drawType l))
                                      (enumerate 0 (imgArr l)))))" by blast
    with True n show ?thesis
      by (simp add: check_item_def ebind_def spec_layer_mismatches_def)
  next
    case False
    from check_imgs_spec [OF ws, of my_list "drawType l" lg cil ec]
    obtain cil' where "check_imgs my_list (drawType l) (lg, cil, ec)
                         (enumerate 0 (imgArr l)) =
           Inr (lg @ concat (map (spec_img_mismatches my_list (drawType l))
                                      (enumerate 0 (imgArr l))), cil',
                ec + length (concat (map (spec_img_mismatches my_list (drawType l))
                                      (enumerate 0 (imgArr l)))))" by blast
    with False show ?thesis
      by (simp add: check_item_def ebind_def spec_layer_mismatches_def)
  qed
qed

lemma check_items_spec:
  assumes "list_all wf_layer config"
  shows "\<exists>cil'. check_items my_list (lg, cil, ec) config =
           Inr (lg @ spec_mismatches my_list config, cil',
                ec + length (spec_mismatches my_list config))"
  using assms
proof (induction config arbitrary: lg cil ec)
  case Nil
  then show ?case by (simp add: spec_mismatches_def)
next
  case (Cons l ls)
  then have w: "wf_layer l" and ws: "list_all wf_layer ls" by simp_all
  from check_item_spec [OF w, of my_list lg cil ec] obtain cil1 where
    1: "check_item my_list (lg, cil, ec) l =
           Inr (lg @ spec_layer_mismatches my_list l, cil1,
                ec + length (spec_layer_mismatches my_list l))" by blast
  from Cons.IH [OF ws, of "lg @ spec_layer_mismatches my_list l" cil1
                   "ec + length (spec_layer_mismatches my_list l)"]
  obtain cil2 where
    2: "check_items my_list (lg @ spec_layer_mismatches my_list l, cil1,
                ec + length (spec_layer_mismatches my_list l)) ls =
           Inr ((lg @ spec_layer_mismatches my_list l) @ spec_mismatches my_list ls, cil2,
                (ec + length (spec_layer_mismatches my_list l))
                  + length (spec_mismatches my_list ls))" by blast
  show ?case using 1 2 by (simp add: spec_mismatches_def)
qed

lemma spec_mismatches_all: "filter is_mismatch (spec_mismatches my_list config) = spec_mismatches my_list config"
proof -
  have a: "\<forall>m \<in> set (spec_img_mismatches my_list dt e). is_mismatch m" for dt e
    by (auto simp: spec_img_mismatches_def split: option.splits if_splits)
  have b: "\<forall>m \<in> set (spec_layer_mismatches my_list l). is_mismatch m" for l
    using a by (auto simp: spec_layer_mismatches_def)
  have "\<forall>m \<in> set (spec_mismatches my_list config). is_mismatch m"
    using b by (auto simp: spec_mismatches_def)
  then show ?thesis by (simp add: filter_id_conv)
qed

text \<open>The validator on the sample directories.\<close>

lemma lower_demo: "lower ''a.png'' = ''a.png''" "lower ''A.PNG'' = ''a.png''"
  "lower ''B.png'' = ''b.png''" "lower ''config.json'' = ''config.json''"
  by (simp_all add: lower_def lower_char_def char_of_def bit_0)

lemma check_clock_a_demo:
  "check_clock validate_a_demo = Inr ([ImageMissing ''a.png'', TotalsDiffer (- 1) 0], False)"
  by (simp add: check_clock_def validate_a_demo_def bg_layer_demo_def get_filename_list_def
        check_item_def ebind_def check_ref_def lower_demo enumerate_eq_zip)

lemma check_clock_b_demo:
  "check_clock validate_b_demo = Inr ([CountMismatch (Some ''bg''), TotalsDiffer 0 1], False)"
  by (simp add: check_clock_def validate_b_demo_def bg_layer_demo_def get_filename_list_def
        check_item_def ebind_def check_ref_def lower_demo enumerate_eq_zip)


text \<open>
  C7, as the claim states it, fails: the caller receives a boolean, not the list of
  errors.  Two directories with different mismatches (a missing image, a wrong count) give
  the caller the same value, \<open>False\<close>; the mismatches appear in the log only.
\<close>

theorem check_clock_returns_bool_counterexample:
  "check_clock validate_a_demo = Inr ([ImageMissing ''a.png'', TotalsDiffer (- 1) 0], False) \<and>
   check_clock validate_b_demo = Inr ([CountMismatch (Some ''bg''), TotalsDiffer 0 1], False) \<and>
   check_clock_ret validate_a_demo = check_clock_ret validate_b_demo"
  by (simp add: check_clock_ret_def check_clock_a_demo check_clock_b_demo)

text \<open>
  C7, amended. For a well-formed descriptor in an existing directory, validation runs to
  the end and logs every mismatch, in order: per layer a wrong count, then each missing
  file referenced by a string (the text slot of draw type 55 apart) or by the third
  element of a 3-tuple.  The caller receives \<open>True\<close> exactly when there is none.
\<close>

theorem check_clock_reports_all:
  assumes "is_dir d" "config_json d = Config config" "list_all wf_layer config"
  shows "\<exists>lg ok. check_clock d = Inr (lg, ok) \<and>
           filter is_mismatch lg = spec_mismatches (map lower (file_names d)) config \<and>
           (ok \<longleftrightarrow> spec_mismatches (map lower (file_names d)) config = []) \<and>
           check_clock_ret d = Inr ok"
proof -
  let ?my = "map lower (file_names d)"
  let ?ms = "spec_mismatches ?my config"
  from check_items_spec [OF assms(3), of ?my "[]" "[]" 0] obtain cil where
    ci: "check_items ?my ([], [], 0) config = Inr (?ms, cil, length ?ms)" by auto
  let ?lg = "if int (length ?my) - 2 \<noteq> int (length cil)
             then ?ms @ [TotalsDiffer (int (length ?my) - 2) (int (length cil))] else ?ms"
  have cc: "check_clock d = Inr (?lg, length ?ms = 0)"
    using assms(1,2) ci by (simp add: check_clock_def get_filename_list_def Let_def)
  have f: "filter is_mismatch ?lg = ?ms"
    by (simp add: spec_mismatches_all)
  have r: "check_clock_ret d = Inr (length ?ms = 0)"
    by (simp add: check_clock_ret_def cc)
  from cc f r show ?thesis by auto
qed

theorem check_clock_reports_all_witness:
  "is_dir validate_c_demo \<and>
   config_json validate_c_demo
     = Config [bg_layer_demo 2 [ImgStr ''a.png''] ''bg'',
               bg_layer_demo 1 [ImgList [ImgInt 1, ImgInt 2, ImgStr ''B.png'']] []] \<and>
   list_all wf_layer [bg_layer_demo 2 [ImgStr ''a.png''] ''bg'',
               bg_layer_demo 1 [ImgList [ImgInt 1, ImgInt 2, ImgStr ''B.png'']] []] \<and>
   (\<exists>lg. check_clock validate_c_demo = Inr (lg, False) \<and>
      filter is_mismatch lg
        = [CountMismatch (Some ''bg''), ImageMissing ''a.png'', ImageMissing ''b.png''])"
proof -
  let ?config = "[bg_layer_demo 2 [ImgStr ''a.png''] ''bg'',
               bg_layer_demo 1 [ImgList [ImgInt 1, ImgInt 2, ImgStr ''B.png'']] []]"
  have a: "is_dir validate_c_demo" by (simp add: validate_c_demo_def)
  have b: "config_json validate_c_demo = Config ?config" by (simp add: validate_c_demo_def)
  have c: "list_all wf_layer ?config" by (simp add: wf_layer_def bg_layer_demo_def)
  have m: "spec_mismatches (map lower (file_names validate_c_demo)) ?config
             = [CountMismatch (Some ''bg''), ImageMissing ''a.png'', ImageMissing ''b.png'']"
    by (simp add: spec_mismatches_def spec_layer_mismatches_def spec_img_mismatches_def
          validate_c_demo_def bg_layer_demo_def lower_demo enumerate_eq_zip)
  from check_clock_reports_all [OF a b c] obtain lg ok where
    "check_clock validate_c_demo = Inr (lg, ok)"
    "filter is_mismatch lg = spec_mismatches (map lower (file_names validate_c_demo)) ?config"
    "ok \<longleftrightarrow> spec_mismatches (map lower (file_names validate_c_demo)) ?config = []"
    by blast
  then have "check_clock validate_c_demo = Inr (lg, False) \<and>
      filter is_mismatch lg
        = [CountMismatch (Some ''bg''), ImageMissing ''a.png'', ImageMissing ''b.png'']"
    unfolding m by simp
  with a b c show ?thesis by blast
qed

text \<open>A layer without the \<open>name\<close> key and with a wrong count stops the validation.\<close>

lemma check_clock_missing_name:
  "check_clock \<lparr>is_dir = True,
      config_json = Config [\<lparr>drawType = 0, dataType = 0, alignType = 0, layer_x = 0,
        layer_y = 0, num = 2, interval = None, area_num = None,
        imgArr = [ImgStr ''a.png''], layer_name = None\<rparr>],
      file_names = [''config.json'']\<rparr> = Inl (KeyError ''name'')"
  by (simp add: check_clock_def check_item_def ebind_def get_filename_list_def)

section \<open>Properties of the assembler\<close>

lemma slice_append_keep: "b \<le> length xs \<Longrightarrow> slice (xs @ ys) a b = slice xs a b"
  by (simp add: slice_def)

lemma slice_append_new: "slice (xs @ ys) (length xs) (length xs + length ys) = ys"
  by (simp add: slice_def)

lemma regions_inv_mono: "regions_inv F st \<Longrightarrow> F \<subseteq> G \<Longrightarrow> regions_inv G st"
  unfolding regions_inv_def by blast

lemma add_file_inv:
  assumes inv: "regions_inv F st" and step: "add_file ov st f = Inr st'"
  shows "regions_inv (insert f F) st'"
proof -
  from step obtain file_name in_data where
    fn: "file_name_of (base_name f) = Inr file_name" and
    ind: "in_data_of f = Inr in_data"
    by (auto simp: add_file_def ebind_def split: sum.splits)
  from inv have lt: "clock_thumb_length st = length (clock_thumb_data st)"
    and li: "clock_img_length st = length (clock_img_data st)"
    and lz: "clock_z_img_length st = length (clock_z_img_data st)"
    and objs: "\<And>k off n. img_objs st k = Some (off, n) \<Longrightarrow>
         off + n \<le> length (region_of st k) \<and>
         (\<exists>f \<in> F. file_name_of (base_name f) = Inr k \<and>
                   in_data_of f = Inr (slice (region_of st k) off (off + n)))"
    unfolding regions_inv_def by blast+
  consider (thumb) "\<not> ov \<and> contains file_name ''thumbnail''"
    | (z) "\<not> (\<not> ov \<and> contains file_name ''thumbnail'')" "startswith file_name ''z_''"
    | (main) "\<not> (\<not> ov \<and> contains file_name ''thumbnail'')" "\<not> startswith file_name ''z_''"
    by blast
  then show ?thesis
  proof cases
    case thumb
    with step fn ind have st': "st' = st\<lparr>clock_thumb_data := in_data,
                                         clock_thumb_length := length in_data\<rparr>"
      by (auto simp: add_file_def ebind_def Let_def)
    have r: "region_of st' k = region_of st k" for k by (simp add: st' region_of_def)
    show ?thesis
      unfolding regions_inv_def r using li lz objs by (auto simp: st')
  next
    case z
    with step fn ind have st': "st' = st\<lparr>clock_z_img_data := clock_z_img_data st @ in_data,
                 img_objs := (img_objs st)(file_name \<mapsto> (clock_z_img_length st, length in_data)),
                 clock_z_img_length := clock_z_img_length st + length in_data\<rparr>"
      by (auto simp: add_file_def ebind_def Let_def)
    have rz: "region_of st' k = region_of st k @ in_data" if "startswith k ''z_''" for k
      using that by (simp add: st' region_of_def)
    have rm: "region_of st' k = region_of st k" if "\<not> startswith k ''z_''" for k
      using that by (simp add: st' region_of_def)
    have "off + n \<le> length (region_of st' k) \<and>
         (\<exists>g \<in> insert f F. file_name_of (base_name g) = Inr k \<and>
                   in_data_of g = Inr (slice (region_of st' k) off (off + n)))"
      if look: "img_objs st' k = Some (off, n)" for k off n
    proof (cases "k = file_name")
      case True
      with look have "off = length (clock_z_img_data st)" "n = length in_data"
        by (simp_all add: st' lz)
      moreover have "region_of st' k = clock_z_img_data st @ in_data"
        using True z(2) by (simp add: st' region_of_def)
      ultimately show ?thesis using fn ind True by (simp add: slice_append_new)
    next
      case False
      with look have old: "img_objs st k = Some (off, n)" by (simp add: st')
      from objs [OF old] obtain g where g: "off + n \<le> length (region_of st k)" "g \<in> F"
        "file_name_of (base_name g) = Inr k"
        "in_data_of g = Inr (slice (region_of st k) off (off + n))" by blast
      show ?thesis
      proof (cases "startswith k ''z_''")
        case True
        with g show ?thesis by (auto simp: rz slice_append_keep)
      next
        case False
        with g show ?thesis by (auto simp: rm)
      qed
    qed
    then show ?thesis
      unfolding regions_inv_def using lt li lz by (simp add: st')
  next
    case main
    with step fn ind have st': "st' = st\<lparr>clock_img_data := clock_img_data st @ in_data,
                 img_objs := (img_objs st)(file_name \<mapsto> (clock_img_length st, length in_data)),
                 clock_img_length := clock_img_length st + length in_data\<rparr>"
      by (auto simp: add_file_def ebind_def Let_def)
    have rz: "region_of st' k = region_of st k" if "startswith k ''z_''" for k
      using that by (simp add: st' region_of_def)
    have rm: "region_of st' k = region_of st k @ in_data" if "\<not> startswith k ''z_''" for k
      using that by (simp add: st' region_of_def)
    have "off + n \<le> length (region_of st' k) \<and>
         (\<exists>g \<in> insert f F. file_name_of (base_name g) = Inr k \<and>
                   in_data_of g = Inr (slice (region_of st' k) off (off + n)))"
      if look: "img_objs st' k = Some (off, n)" for k off n
    proof (cases "k = file_name")
      case True
      with look have "off = length (clock_img_data st)" "n = length in_data"
        by (simp_all add: st' li)
      moreover have "region_of st' k = clock_img_data st @ in_data"
        using True main(2) by (simp add: st' region_of_def)
      ultimately show ?thesis using fn ind True by (simp add: slice_append_new)
    next
      case False
      with look have old: "img_objs st k = Some (off, n)" by (simp add: st')
      from objs [OF old] obtain g where g: "off + n \<le> length (region_of st k)" "g \<in> F"
        "file_name_of (base_name g) = Inr k"
        "in_data_of g = Inr (slice (region_of st k) off (off + n))" by blast
      show ?thesis
      proof (cases "startswith k ''z_''")
        case True
        with g show ?thesis by (auto simp: rz)
      next
        case False
        with g show ?thesis by (auto simp: rm slice_append_keep)
      qed
    qed
    then show ?thesis
      unfolding regions_inv_def using lt li lz by (simp add: st')
  qed
qed

lemma add_files_inv:
  "regions_inv F st \<Longrightarrow> add_files ov st fs = Inr st' \<Longrightarrow> regions_inv (F \<union> set fs) st'"
proof (induction fs arbitrary: F st)
  case Nil
  then show ?case by simp
next
  case (Cons f fs)
  from Cons.prems(2) obtain st1 where 1: "add_file ov st f = Inr st1"
    and 2: "add_files ov st1 fs = Inr st'"
    by (auto split: sum.splits)
  from add_file_inv [OF Cons.prems(1) 1] have "regions_inv (insert f F) st1" .
  from Cons.IH [OF this 2] show ?case by simp
qed

lemma init_state_inv: "init_state t = Inr st \<Longrightarrow> regions_inv {} st"
  by (auto simp: init_state_def regions_inv_def split: option.splits)

lemma build_regions_inv:
  assumes "build_regions t files = Inr st"
  shows "regions_inv (set files) st"
proof -
  from assms obtain st0 where 0: "init_state t = Inr st0"
    and 1: "add_files (t \<noteq> None) st0 files = Inr st"
    by (auto simp: build_regions_def ebind_def split: sum.splits)
  from add_files_inv [OF init_state_inv [OF 0] 1] show ?thesis by simp
qed






section \<open>Properties of the container header\<close>

lemma length_be_bytes4: "length (be_bytes4 v) = 4"
  by (simp add: be_bytes4_def)

lemma length_encode: "length (encode s) = length s"
  by (simp add: encode_def)

lemma base256_digits:
  assumes "m < 2 ^ 32"
  shows "(m div 2 ^ 24) mod 256 * 2 ^ 24 + ((m div 2 ^ 16) mod 256 * 2 ^ 16
            + ((m div 2 ^ 8) mod 256 * 2 ^ 8 + m mod 256)) = (m::nat)"
proof -
  define m1 where "m1 = m div 256"
  define m2 where "m2 = m1 div 256"
  define m3 where "m3 = m2 div 256"
  define r0 where "r0 = m mod 256"
  define r1 where "r1 = m1 mod 256"
  define r2 where "r2 = m2 mod 256"
  have d8: "m div 2 ^ 8 = m1" by (simp add: m1_def)
  have d16: "m div 2 ^ 16 = m2"
    using div_mult2_eq [of m 256 256] by (simp add: m1_def m2_def)
  have d24: "m div 2 ^ 24 = m3"
    using div_mult2_eq [of m 65536 256] d16 by (simp add: m3_def)
  have e0: "m = m1 * 256 + r0" by (simp add: m1_def r0_def)
  have e1: "m1 = m2 * 256 + r1" by (simp add: m2_def r1_def)
  have e2: "m2 = m3 * 256 + r2" by (simp add: m3_def r2_def)
  have "m < 256 * 2 ^ 24" using assms by simp
  then have "m div 2 ^ 24 < 256" by (rule less_mult_imp_div_less)
  then have "m3 < 256" unfolding d24 .
  then have l: "m3 mod 256 = m3" by simp
  have "m3 * 2 ^ 24 + (r2 * 2 ^ 16 + (r1 * 2 ^ 8 + r0)) = m"
    using e0 e1 e2 by simp
  then show ?thesis
    unfolding d8 d16 d24 l r0_def [symmetric] r1_def [symmetric] r2_def [symmetric] .
qed

lemma be_uint_be_bytes4:
  assumes "m < 2 ^ 32"
  shows "be_uint (be_bytes4 (int m)) = m"
proof -
  have w: "word_of_int (drop_bit k (int m)) = (of_nat (drop_bit k m) :: byte)" for k
  proof -
    have "drop_bit k (int m) = int (drop_bit k m)" by (simp add: drop_bit_eq_div zdiv_int)
    then show ?thesis by simp
  qed
  have "be_uint (be_bytes4 (int m)) =
          (m div 2 ^ 24) mod 256 * 2 ^ 24 + ((m div 2 ^ 16) mod 256 * 2 ^ 16
            + ((m div 2 ^ 8) mod 256 * 2 ^ 8 + m mod 256))"
    using w [of 24] w [of 16] w [of 8] w [of 0]
    by (simp add: be_bytes4_def unat_byte_of_nat drop_bit_eq_div)
  also have "\<dots> = m" using assms by (rule base256_digits)
  finally show ?thesis .
qed

lemma prefix_dict_props:
  assumes "map_of g_clock_id_prefix_dict clock_size = Some prefix"
  shows "0 \<le> prefix \<and> prefix < 2 ^ 32 \<and> prefix AND 0xFFFF = 0 \<and> prefix AND 0xFFFF0000 = prefix"
  using assms
  by (auto simp: g_clock_id_prefix_dict_def split: if_splits)

lemma low16_self:
  assumes "0 \<le> b" "b < 65536"
  shows "(b::int) AND 0xFFFF = b" and "b AND 0xFFFF0000 = 0"
proof -
  have t: "take_bit 16 b = b" using assms by (simp add: take_bit_int_eq_self)
  have "b AND 0xFFFF = take_bit 16 b" by (simp add: take_bit_eq_mask mask_eq_exp_minus_1)
  with t show "b AND 0xFFFF = b" by simp
  have "0 \<le> b AND 0xFFFF0000" "b AND 0xFFFF0000 \<le> b"
    using assms(1) by simp_all
  with assms(2) have "take_bit 16 (b AND 0xFFFF0000) = b AND 0xFFFF0000"
    by (intro take_bit_int_eq_self) auto
  moreover have "take_bit 16 (b AND 0xFFFF0000) = take_bit 16 b AND take_bit 16 0xFFFF0000"
    by (rule take_bit_and)
  moreover have "take_bit 16 (0xFFFF0000 :: int) = 0"
    by (simp add: take_bit_eq_mod)
  ultimately show "b AND 0xFFFF0000 = 0" by simp
qed

lemma clock_id_halves:
  assumes "map_of g_clock_id_prefix_dict clock_size = Some prefix"
    and "50000 \<le> b" "b \<le> 65535"
  shows "(b OR prefix) AND 0xFFFF = b" and "(b OR prefix) AND 0xFFFF0000 = prefix"
proof -
  from prefix_dict_props [OF assms(1)]
  have p: "prefix AND 0xFFFF = 0" "prefix AND 0xFFFF0000 = prefix" by simp_all
  have b: "b AND 0xFFFF = b" "b AND 0xFFFF0000 = 0"
    using assms(2,3) by (simp_all add: low16_self)
  show "(b OR prefix) AND 0xFFFF = b"
    by (simp add: bit.conj_disj_distrib2 p b)
  show "(b OR prefix) AND 0xFFFF0000 = prefix"
    by (simp add: bit.conj_disj_distrib2 p b)
qed

lemma gen_clock_res_ok:
  assumes "gen_clock_res d files b csize idle t = Inr (cid, file)"
  shows "\<exists>lg prefix st config layers.
           check_clock d = Inr (lg, True) \<and>
           map_of g_clock_id_prefix_dict csize = Some prefix \<and> cid = b OR prefix \<and>
           build_regions t files = Inr st \<and> config_json d = Config config \<and>
           ser_layers (z_img_start st) (img_objs st) config = Inr layers \<and>
           write_res idle cid st layers = Inr file"
  using assms
  by (auto simp: gen_clock_res_def Let_def
           split: sum.splits prod.splits if_splits option.splits config_file.splits)

lemma write_res_ok:
  assumes "write_res idle cid st layers = Inr file"
  shows "0 \<le> cid \<and> cid < 2 ^ 32 \<and>
         32 + clock_thumb_length st + clock_img_length st + clock_z_img_length st < 2 ^ 32 \<and>
         file = encode (if idle then ''II@*24dG'' else ''Sb@*O2GG'') @ be_bytes4 cid @
                be_bytes4 32 @ be_bytes4 (int (clock_thumb_length st)) @
                be_bytes4 (int (32 + clock_thumb_length st)) @
                be_bytes4 (int (clock_img_length st)) @
                be_bytes4 (int (32 + clock_thumb_length st + clock_img_length st
                                 + clock_z_img_length st)) @
                clock_thumb_data st @ clock_img_data st @ clock_z_img_data st @ layers"
  using assms
  by (auto simp: write_res_def pack_I_be_def ebind_def Let_def add.assoc split: if_splits)

lemma cli_main_ok:
  assumes "cli_main d files b csize idle t = Inr r"
  shows "50000 \<le> b \<and> b \<le> 65535 \<and> gen_clock_res d files b csize idle t = Inr r"
  using assms
  by (auto simp: cli_main_def split: if_splits sum.splits pack_error.splits)

lemma header_slices:
  assumes "length m = 8" "length f1 = 4" "length f2 = 4" "length f3 = 4" "length f4 = 4"
    "length f5 = 4" "length f6 = 4"
    and "file = m @ f1 @ f2 @ f3 @ f4 @ f5 @ f6 @ rest"
  shows "slice file 0 8 = m \<and> slice file 8 12 = f1 \<and> slice file 12 16 = f2 \<and>
         slice file 16 20 = f3 \<and> slice file 20 24 = f4 \<and> slice file 24 28 = f5 \<and>
         slice file 28 32 = f6 \<and> drop 32 file = rest"
  using assms by (simp add: slice_def)

text \<open>
  C1. A successful pack writes the 8-byte magic (the idle one when selected), then six
  big-endian 32-bit fields: the clock id, which is the base id OR'ed with the prefix of the
  resolution table, its high half being that prefix and its low half in 50000..65535; 32;
  the thumbnail length; 32 plus the thumbnail length; the main region length; and the sum
  of 32 and the three lengths.  From offset 32 on come the thumbnail, the main region, the
  Z region and the layer block.
\<close>

theorem res_blob_layout:
  assumes "cli_main d files b csize idle t = Inr (cid, file)"
  shows "\<exists>prefix st config layers.
           map_of g_clock_id_prefix_dict csize = Some prefix \<and> cid = b OR prefix \<and>
           cid AND 0xFFFF0000 = prefix \<and> 50000 \<le> cid AND 0xFFFF \<and> cid AND 0xFFFF \<le> 65535 \<and>
           build_regions t files = Inr st \<and> config_json d = Config config \<and>
           ser_layers (z_img_start st) (img_objs st) config = Inr layers \<and>
           slice file 0 8 = encode (if idle then ''II@*24dG'' else ''Sb@*O2GG'') \<and>
           be_uint (slice file 8 12) = nat cid \<and>
           be_uint (slice file 12 16) = 32 \<and>
           be_uint (slice file 16 20) = length (clock_thumb_data st) \<and>
           be_uint (slice file 20 24) = 32 + length (clock_thumb_data st) \<and>
           be_uint (slice file 24 28) = length (clock_img_data st) \<and>
           be_uint (slice file 28 32) = 32 + length (clock_thumb_data st)
              + length (clock_img_data st) + length (clock_z_img_data st) \<and>
           drop 32 file = clock_thumb_data st @ clock_img_data st @ clock_z_img_data st @ layers"
proof -
  from cli_main_ok [OF assms] have rng: "50000 \<le> b" "b \<le> 65535"
    and g: "gen_clock_res d files b csize idle t = Inr (cid, file)" by simp_all
  from gen_clock_res_ok [OF g] obtain lg prefix st config layers where
    p: "map_of g_clock_id_prefix_dict csize = Some prefix" and cid: "cid = b OR prefix"
    and br: "build_regions t files = Inr st" and cfg: "config_json d = Config config"
    and sl: "ser_layers (z_img_start st) (img_objs st) config = Inr layers"
    and wr: "write_res idle cid st layers = Inr file" by blast
  from build_regions_inv [OF br] have len:
    "clock_thumb_length st = length (clock_thumb_data st)"
    "clock_img_length st = length (clock_img_data st)"
    "clock_z_img_length st = length (clock_z_img_data st)"
    unfolding regions_inv_def by blast+
  let ?T = "length (clock_thumb_data st)"
  let ?M = "length (clock_img_data st)"
  let ?Z = "length (clock_z_img_data st)"
  let ?magic = "encode (if idle then ''II@*24dG'' else ''Sb@*O2GG'')"
  from write_res_ok [OF wr] have c0: "0 \<le> cid" and c1: "cid < 2 ^ 32"
    and tot: "32 + ?T + ?M + ?Z < 2 ^ 32"
    and fl: "file = ?magic @ be_bytes4 cid @ be_bytes4 32 @ be_bytes4 (int ?T) @
                be_bytes4 (int (32 + ?T)) @ be_bytes4 (int ?M) @
                be_bytes4 (int (32 + ?T + ?M + ?Z)) @
                (clock_thumb_data st @ clock_img_data st @ clock_z_img_data st @ layers)"
    unfolding len by simp_all
  have lm: "length ?magic = 8" by (simp add: length_encode)
  note hs = header_slices [OF lm length_be_bytes4 length_be_bytes4 length_be_bytes4
                             length_be_bytes4 length_be_bytes4 length_be_bytes4 fl]
  have cn: "cid = int (nat cid)" using c0 by simp
  have "nat cid < 2 ^ 32" using c0 c1 by simp
  then have r1: "be_uint (be_bytes4 cid) = nat cid"
    using be_uint_be_bytes4 [of "nat cid"] cn by simp
  have r2: "be_uint (be_bytes4 32) = 32"
    using be_uint_be_bytes4 [of 32] by simp
  have r3: "be_uint (be_bytes4 (int ?T)) = ?T"
    using tot by (intro be_uint_be_bytes4) simp
  have r4: "be_uint (be_bytes4 (int (32 + ?T))) = 32 + ?T"
    using tot by (intro be_uint_be_bytes4) simp
  have r5: "be_uint (be_bytes4 (int ?M)) = ?M"
    using tot by (intro be_uint_be_bytes4) simp
  have r6: "be_uint (be_bytes4 (int (32 + ?T + ?M + ?Z))) = 32 + ?T + ?M + ?Z"
    using tot by (intro be_uint_be_bytes4) simp
  from clock_id_halves [OF p rng] have h: "cid AND 0xFFFF = b" "cid AND 0xFFFF0000 = prefix"
    unfolding cid by simp_all
  have "map_of g_clock_id_prefix_dict csize = Some prefix \<and> cid = b OR prefix \<and>
           cid AND 0xFFFF0000 = prefix \<and> 50000 \<le> cid AND 0xFFFF \<and> cid AND 0xFFFF \<le> 65535 \<and>
           build_regions t files = Inr st \<and> config_json d = Config config \<and>
           ser_layers (z_img_start st) (img_objs st) config = Inr layers \<and>
           slice file 0 8 = ?magic \<and>
           be_uint (slice file 8 12) = nat cid \<and>
           be_uint (slice file 12 16) = 32 \<and>
           be_uint (slice file 16 20) = ?T \<and>
           be_uint (slice file 20 24) = 32 + ?T \<and>
           be_uint (slice file 24 28) = ?M \<and>
           be_uint (slice file 28 32) = 32 + ?T + ?M + ?Z \<and>
           drop 32 file = clock_thumb_data st @ clock_img_data st @ clock_z_img_data st @ layers"
    using p cid h rng br cfg sl hs r1 r2 r3 r4 r5 r6 by simp
  then show ?thesis by blast
qed

text \<open>The packer on the sample watchface, evaluated step by step.\<close>

lemma replicate_8: "replicate 8 x = [x, x, x, x, x, x, x, x]"
  by (simp add: numeral_eq_Suc)

lemma check_clock_pack_demo: "check_clock pack_dir_demo = Inr ([TotalsDiffer 0 1], True)"
  by (simp add: check_clock_def pack_dir_demo_def bg_layer_demo_def get_filename_list_def
        check_item_def ebind_def check_ref_def lower_def lower_char_def enumerate_eq_zip)

lemma chunk_header_demo:
  "chunk_header 9 3 360 360 = [9, 0, 3, 0, 0, 104, 129, 22, 0, 0, 0, 0, 0, 0, 0, 0]"
  by (simp add: chunk_header_def replicate_8)

lemma add_file_main:
  assumes "file_name_of (base_name f) = Inr k" "in_data_of f = Inr x"
    and "\<not> contains k ''thumbnail''" "\<not> startswith k ''z_''"
  shows "add_file ov st f =
           Inr (st\<lparr>clock_img_data := clock_img_data st @ x,
                   img_objs := (img_objs st)(k \<mapsto> (clock_img_length st, length x)),
                   clock_img_length := clock_img_length st + length x\<rparr>)"
  using assms by (simp add: add_file_def ebind_def Let_def)

lemma build_regions_pack_demo: "build_regions None pack_files_demo = Inr pack_state_demo"
proof -
  let ?f = "\<lparr>base_name = ''bg.jpg'', contents = [1, 2, 3], img_size = Some (360, 360)\<rparr>"
  let ?x = "[9, 0, 3, 0, 0, 104, 129, 22, 0, 0, 0, 0, 0, 0, 0, 0, 1, 2, 3] :: byte list"
  let ?st0 = "\<lparr>clock_thumb_data = [], clock_thumb_length = 0, clock_img_data = [],
               clock_img_length = 0, clock_z_img_data = [], clock_z_img_length = 0,
               img_objs = Map.empty\<rparr>"
  have three: "Suc (Suc (Suc 0)) = 3" by simp
  have len: "length ?x = 19" by simp
  have ind: "in_data_of ?f = Inr ?x"
    by (simp add: in_data_of_def img_ext_of_def lower_def lower_char_def three
          chunk_header_demo)
  have fn: "file_name_of (base_name ?f) = Inr ''bg.jpg''"
    by (simp add: file_name_of_def)
  have th: "\<not> contains ''bg.jpg'' ''thumbnail''" by (simp add: startswith_def)
  have z: "\<not> startswith ''bg.jpg'' ''z_''" by (simp add: startswith_def)
  have "add_file False ?st0 ?f =
           Inr (?st0\<lparr>clock_img_data := clock_img_data ?st0 @ ?x,
                   img_objs := (img_objs ?st0)(''bg.jpg'' \<mapsto> (clock_img_length ?st0, length ?x)),
                   clock_img_length := clock_img_length ?st0 + length ?x\<rparr>)"
    using fn ind th z by (rule add_file_main)
  then have "add_file False ?st0 ?f = Inr pack_state_demo"
    unfolding len by (simp add: pack_state_demo_def)
  then show ?thesis
    by (simp add: build_regions_def init_state_def pack_files_demo_def ebind_def)
qed

lemma ser_layers_pack_demo:
  "ser_layers 51 [''bg.jpg'' \<mapsto> (0, 19)] [bg_layer_demo 1 [ImgStr ''bg.jpg''] ''bg''] =
     Inr [0, 0, 0, 0,  0, 0, 0, 0,  0, 0, 0, 0,  0, 0, 0, 0,  0, 0, 0, 0,  0, 0, 0, 1,
          0, 0, 0, 0,  0, 0, 0, 19]"
  by (simp add: ser_layers_def ser_layer_def ser_layer_head_def ser_img_def bg_layer_demo_def
        ebind_def pack_i_be_def pack_ref_def lookup_obj_def startswith_def be_bytes4_def
        enumerate_eq_zip upt_rec)

lemma cli_main_pack_demo:
  "cli_main pack_dir_demo pack_files_demo 50001 ''360_360'' False None
     = Inr (508753, pack_file_demo)"
proof -
  have cfg: "config_json pack_dir_demo = Config [bg_layer_demo 1 [ImgStr ''bg.jpg''] ''bg'']"
    by (simp add: pack_dir_demo_def)
  have px: "map_of g_clock_id_prefix_dict ''360_360'' = Some 458752"
    by (simp add: g_clock_id_prefix_dict_def)
  have cid: "(50001 :: int) OR 458752 = 508753" by simp
  have zs: "z_img_start pack_state_demo = 51"
    by (simp add: z_img_start_def pack_state_demo_def)
  have objs: "img_objs pack_state_demo = [''bg.jpg'' \<mapsto> (0, 19)]"
    by (simp add: pack_state_demo_def)
  have wr: "write_res False 508753 pack_state_demo
              [0, 0, 0, 0,  0, 0, 0, 0,  0, 0, 0, 0,  0, 0, 0, 0,  0, 0, 0, 0,  0, 0, 0, 1,
               0, 0, 0, 0,  0, 0, 0, 19] = Inr pack_file_demo"
    by (simp add: write_res_def pack_I_be_def ebind_def be_bytes4_def encode_def
          pack_state_demo_def pack_file_demo_def)
  show ?thesis
    unfolding cli_main_def gen_clock_res_def
    by (simp add: check_clock_pack_demo px cid build_regions_pack_demo cfg zs objs
          ser_layers_pack_demo wr)
qed

theorem res_blob_layout_witness:
  "cli_main pack_dir_demo pack_files_demo 50001 ''360_360'' False None
     = Inr (508753, pack_file_demo) \<and>
   (508753 :: int) AND 0xFFFF0000 = 458752 \<and> (508753 :: int) AND 0xFFFF = 50001 \<and>
   slice pack_file_demo 0 8 = encode ''Sb@*O2GG'' \<and>
   be_uint (slice pack_file_demo 8 12) = 508753 \<and>
   be_uint (slice pack_file_demo 12 16) = 32 \<and>
   be_uint (slice pack_file_demo 16 20) = 0 \<and>
   be_uint (slice pack_file_demo 20 24) = 32 \<and>
   be_uint (slice pack_file_demo 24 28) = 19 \<and>
   be_uint (slice pack_file_demo 28 32) = 51"
proof -
  from res_blob_layout [OF cli_main_pack_demo] obtain prefix st config layers where
    p: "map_of g_clock_id_prefix_dict ''360_360'' = Some prefix"
    and h: "(508753 :: int) AND 0xFFFF0000 = prefix"
    and br: "build_regions None pack_files_demo = Inr st"
    and m: "slice pack_file_demo 0 8 = encode (if False then ''II@*24dG'' else ''Sb@*O2GG'')"
    and f1: "be_uint (slice pack_file_demo 8 12) = nat 508753"
    and f2: "be_uint (slice pack_file_demo 12 16) = 32"
    and f3: "be_uint (slice pack_file_demo 16 20) = length (clock_thumb_data st)"
    and f4: "be_uint (slice pack_file_demo 20 24) = 32 + length (clock_thumb_data st)"
    and f5: "be_uint (slice pack_file_demo 24 28) = length (clock_img_data st)"
    and f6: "be_uint (slice pack_file_demo 28 32) = 32 + length (clock_thumb_data st)
              + length (clock_img_data st) + length (clock_z_img_data st)"
    by blast
  from p have px: "prefix = 458752" by (simp add: g_clock_id_prefix_dict_def)
  from br have st: "st = pack_state_demo" by (simp add: build_regions_pack_demo)
  have l: "length (clock_thumb_data pack_state_demo) = 0"
    "length (clock_img_data pack_state_demo) = 19"
    "length (clock_z_img_data pack_state_demo) = 0"
    by (simp_all add: pack_state_demo_def)
  have low: "(508753 :: int) AND 0xFFFF = 50001" by simp
  show ?thesis
    using cli_main_pack_demo h m f1 f2 f3 f4 f5 f6 low unfolding px st l by simp
qed

section \<open>Letter case of file names in the packer\<close>

lemma check_clock_case_demo: "check_clock case_dir_demo = Inr ([TotalsDiffer 0 1], True)"
  by (simp add: check_clock_def case_dir_demo_def bg_layer_demo_def get_filename_list_def
        check_item_def ebind_def check_ref_def lower_def lower_char_def enumerate_eq_zip
        char_of_def bit_0)

lemma build_regions_case_demo: "build_regions None case_files_demo = Inr case_state_demo"
proof -
  let ?f = "\<lparr>base_name = ''BG.jpg'', contents = [1, 2, 3], img_size = Some (360, 360)\<rparr>"
  let ?x = "[9, 0, 3, 0, 0, 104, 129, 22, 0, 0, 0, 0, 0, 0, 0, 0, 1, 2, 3] :: byte list"
  let ?st0 = "\<lparr>clock_thumb_data = [], clock_thumb_length = 0, clock_img_data = [],
               clock_img_length = 0, clock_z_img_data = [], clock_z_img_length = 0,
               img_objs = Map.empty\<rparr>"
  have three: "Suc (Suc (Suc 0)) = 3" by simp
  have len: "length ?x = 19" by simp
  have ind: "in_data_of ?f = Inr ?x"
    by (simp add: in_data_of_def img_ext_of_def lower_def lower_char_def three
          chunk_header_demo)
  have fn: "file_name_of (base_name ?f) = Inr ''BG.jpg''"
    by (simp add: file_name_of_def)
  have th: "\<not> contains ''BG.jpg'' ''thumbnail''" by (simp add: startswith_def)
  have z: "\<not> startswith ''BG.jpg'' ''z_''" by (simp add: startswith_def)
  have "add_file False ?st0 ?f =
           Inr (?st0\<lparr>clock_img_data := clock_img_data ?st0 @ ?x,
                   img_objs := (img_objs ?st0)(''BG.jpg'' \<mapsto> (clock_img_length ?st0, length ?x)),
                   clock_img_length := clock_img_length ?st0 + length ?x\<rparr>)"
    using fn ind th z by (rule add_file_main)
  then have "add_file False ?st0 ?f = Inr case_state_demo"
    unfolding len by (simp add: case_state_demo_def)
  then show ?thesis
    by (simp add: build_regions_def init_state_def case_files_demo_def ebind_def)
qed

lemma ser_layers_case_demo:
  "ser_layers 51 [''BG.jpg'' \<mapsto> (0, 19)] [bg_layer_demo 1 [ImgStr ''bg.jpg''] ''bg''] =
     Inl (KeyError ''bg.jpg'')"
  by (simp add: ser_layers_def ser_layer_def ser_layer_head_def ser_img_def bg_layer_demo_def
        ebind_def pack_i_be_def pack_ref_def lookup_obj_def startswith_def enumerate_eq_zip
        upt_rec)

text \<open>
  C3 fails on the code.  The validator, which compares in lower case, accepts a directory
  that holds \<open>BG.jpg\<close> for the reference \<open>bg.jpg\<close>; the serializer then looks the
  reference up as written and raises KeyError.  A file named \<open>Thumbnail.png\<close> is not
  taken as the thumbnail: it goes to the main region and the thumbnail stays empty.
\<close>

theorem gen_clock_res_case_sensitive:
  "check_clock_ret case_dir_demo = Inr True \<and>
   gen_clock_res case_dir_demo case_files_demo 50001 ''360_360'' False None
     = Inl (Raised (KeyError ''bg.jpg'')) \<and>
   build_regions None thumb_files_demo =
     Inr \<lparr>clock_thumb_data = [], clock_thumb_length = 0, clock_img_data = [7, 8],
          clock_img_length = 2, clock_z_img_data = [], clock_z_img_length = 0,
          img_objs = [''Thumbnail.png'' \<mapsto> (0, 2)]\<rparr>"
proof -
  have a: "check_clock_ret case_dir_demo = Inr True"
    by (simp add: check_clock_ret_def check_clock_case_demo)
  have cfg: "config_json case_dir_demo = Config [bg_layer_demo 1 [ImgStr ''bg.jpg''] ''bg'']"
    by (simp add: case_dir_demo_def)
  have px: "map_of g_clock_id_prefix_dict ''360_360'' = Some 458752"
    by (simp add: g_clock_id_prefix_dict_def)
  have zs: "z_img_start case_state_demo = 51"
    by (simp add: z_img_start_def case_state_demo_def)
  have objs: "img_objs case_state_demo = [''BG.jpg'' \<mapsto> (0, 19)]"
    by (simp add: case_state_demo_def)
  have b: "gen_clock_res case_dir_demo case_files_demo 50001 ''360_360'' False None
             = Inl (Raised (KeyError ''bg.jpg''))"
    unfolding gen_clock_res_def
    by (simp add: check_clock_case_demo px build_regions_case_demo cfg zs objs
          ser_layers_case_demo)
  let ?f = "\<lparr>base_name = ''Thumbnail.png.bmp.RGB'', contents = [7, 8], img_size = None\<rparr>"
  let ?st0 = "\<lparr>clock_thumb_data = [], clock_thumb_length = 0, clock_img_data = [],
               clock_img_length = 0, clock_z_img_data = [], clock_z_img_length = 0,
               img_objs = Map.empty\<rparr>"
  have two: "Suc (Suc 0) = 2" by simp
  have ind: "in_data_of ?f = Inr [7, 8]"
    by (simp add: in_data_of_def img_ext_of_def lower_def lower_char_def)
  have fn: "file_name_of (base_name ?f) = Inr ''Thumbnail.png''"
    by (simp add: file_name_of_def)
  have th: "\<not> contains ''Thumbnail.png'' ''thumbnail''" by (simp add: startswith_def)
  have z: "\<not> startswith ''Thumbnail.png'' ''z_''" by (simp add: startswith_def)
  have "add_file False ?st0 ?f =
           Inr (?st0\<lparr>clock_img_data := clock_img_data ?st0 @ [7, 8],
                   img_objs := (img_objs ?st0)(''Thumbnail.png'' \<mapsto>
                                  (clock_img_length ?st0, length [7, 8 :: byte])),
                   clock_img_length := clock_img_length ?st0 + length [7, 8 :: byte]\<rparr>)"
    using fn ind th z by (rule add_file_main)
  then have c: "build_regions None thumb_files_demo =
     Inr \<lparr>clock_thumb_data = [], clock_thumb_length = 0, clock_img_data = [7, 8],
          clock_img_length = 2, clock_z_img_data = [], clock_z_img_length = 0,
          img_objs = [''Thumbnail.png'' \<mapsto> (0, 2)]\<rparr>"
    by (simp add: build_regions_def init_state_def thumb_files_demo_def ebind_def two)
  from a b c show ?thesis by blast
qed

end
